theory Spec2Isabelle
  imports Main "HOL-Library.Char_ord" "HOL-Library.List_Lexorder"
begin

section \<open>Python values, dictionaries and exceptions\<close>

text \<open>
  The values a filter mapping, a pager, a sorter or a record can hold. A Python \<open>list\<close> is
  \<open>VList\<close>; every other constructor is a scalar for \<open>type(v) is not list\<close>.
  \<open>VDatetime\<close> is a \<open>datetime.datetime\<close>, represented by its ISO-8601 text.
\<close>

datatype pyval =
    VNone
  | VBool bool
  | VInt int
  | VStr string
  | VDatetime string
  | VList "pyval list"

text \<open>
  A \<open>dict\<close> keeps its keys in insertion order and \<open>search_sql\<close> iterates in that order, so a
  dictionary is an association list whose keys are distinct. \<open>dict_set\<close> is \<open>d[k] = v\<close>: an
  existing key keeps its place, a new key goes last.
\<close>

type_synonym 'v dict = "(string \<times> 'v) list"

fun dict_set :: "string \<Rightarrow> 'v \<Rightarrow> 'v dict \<Rightarrow> 'v dict" where
  "dict_set k v [] = [(k, v)]"
| "dict_set k v ((k', v') # d) =
     (if k = k' then (k, v) # d else (k', v') # dict_set k v d)"

definition dict_keys :: "'v dict \<Rightarrow> string list" where
  "dict_keys d = map fst d"

definition dict_get :: "'v dict \<Rightarrow> string \<Rightarrow> 'v option" where
  "dict_get d k = map_of d k"

definition has_key :: "'v dict \<Rightarrow> string \<Rightarrow> bool" where
  "has_key d k = (k \<in> set (dict_keys d))"

text \<open>Python truthiness, as \<open>if x:\<close> tests it.\<close>

fun truthy :: "pyval \<Rightarrow> bool" where
  "truthy VNone = False"
| "truthy (VBool b) = b"
| "truthy (VInt n) = (n \<noteq> 0)"
| "truthy (VStr s) = (s \<noteq> [])"
| "truthy (VDatetime t) = True"
| "truthy (VList vs) = (vs \<noteq> [])"

text \<open>
  Every exception the modelled code can raise or let through. \<open>AttributeError name\<close> is what
  \<open>getattr(table.c, name)\<close> raises for a name the column collection does not have (the
  specification calls it a schema error), and what Python raises for a missing method.
  \<open>ArgumentError\<close> is SQLAlchemy's refusal of an operand. The four \<open>sqlalchemy.exc\<close> classes of
  the driver carry its message; \<open>BusinessError code http_code err_info\<close> is the controller's
  own error. \<open>KeyboardInterrupt\<close> and \<open>CancelledError\<close> (of \<open>asyncio\<close>, since Python 3.8) derive
  from \<open>BaseException\<close> and not from \<open>Exception\<close>, so \<open>except Exception\<close> lets them pass.
\<close>

datatype exc =
    AttributeError string
  | TypeError
  | IndexError
  | CompileError string
  | OperationalError string
  | IntegrityError string
  | DataError string
  | ProgrammingError string
  | BusinessError int int string
  | OtherError string
  | ArgumentError
  | KeyboardInterrupt
  | CancelledError

text \<open>Whether \<open>except Exception\<close> catches the exception.\<close>

fun is_exception :: "exc \<Rightarrow> bool" where
  "is_exception KeyboardInterrupt = False"
| "is_exception CancelledError = False"
| "is_exception e = True"

section \<open>Statements\<close>

datatype pred =
    ColEq string pyval
  | ColGt string pyval
  | ColGe string pyval
  | ColLt string pyval
  | ColLe string pyval
  | ColLike string pyval
  | ColIn string "pyval list"
  | PConst bool

datatype direction = Asc | Desc

text \<open>An entry of ORDER BY: a column with its direction, or a piece of text.\<close>

datatype order_term = ByColumn string direction | ByText string

datatype projection = AllColumns | CountStar

text \<open>
  A \<open>select\<close> under construction. Successive \<open>.where(p)\<close> calls are joined by AND, so the
  WHERE clause is the list of the predicates added so far, read as their conjunction.
  \<open>PConst b\<close> is what \<open>.where(True)\<close> or \<open>.where(False)\<close> adds; the list keeps the constant as a
  conjunct where SQLAlchemy simplifies the conjunction.
\<close>

record select_stmt =
  projection :: projection
  wheres :: "pred list"
  limit :: "int option"
  offset :: "int option"
  order_by :: "order_term list"

definition select_table :: select_stmt where
  "select_table =
     \<lparr>projection = AllColumns, wheres = [], limit = None, offset = None, order_by = []\<rparr>"


definition add_where :: "pred \<Rightarrow> select_stmt \<Rightarrow> select_stmt" where
  "add_where p s = s\<lparr>wheres := wheres s @ [p]\<rparr>"

section \<open>The table and its column collection\<close>

text \<open>
  \<open>table.c\<close> is an object of SQLAlchemy, which is not among the sources. \<open>getattr\<close> and
  \<open>hasattr\<close> on it find the attributes of the object itself first (its methods \<open>keys\<close>,
  \<open>values\<close>, \<open>items\<close>, \<open>get\<close> and so on) and only then the columns, so an attribute of the
  object hides a column of the same name. A table is therefore given by its column names
  and by the attributes of its collection object, each with the kind of value it has: an
  object of the library (a bound method, the dictionary of columns, a class), \<open>None\<close>, or a
  string.
\<close>

datatype attr_value = Object | NoneValue | Text string

record table =
  columns :: "string list"
  own_attrs :: "(string \<times> attr_value) list"

text \<open>What \<open>getattr(table.c, name)\<close> returns.\<close>

datatype attr = Column string | Own attr_value

definition getattr_c :: "table \<Rightarrow> string \<Rightarrow> exc + attr" where
  "getattr_c tbl name =
     (case map_of (own_attrs tbl) name of
        Some a \<Rightarrow> Inr (Own a)
      | None \<Rightarrow> if name \<in> set (columns tbl) then Inr (Column name) else Inl (AttributeError name))"

text \<open>
  \<open>attr == value\<close>. On a column it is the SQL comparison, for every value; on any other
  object it is Python's equality, a \<open>bool\<close>: an object of the library equals no filter value,
  \<open>None\<close> equals \<open>None\<close>, a string equals the same string.
\<close>

fun eq_pred :: "attr \<Rightarrow> pyval \<Rightarrow> pred" where
  "eq_pred (Column c) v = ColEq c v"
| "eq_pred (Own Object) v = PConst False"
| "eq_pred (Own NoneValue) v = PConst (v = VNone)"
| "eq_pred (Own (Text s)) v = PConst (v = VStr s)"

datatype cmp_op = OpGt | OpGe | OpLt | OpLe

fun col_cmp :: "cmp_op \<Rightarrow> string \<Rightarrow> pyval \<Rightarrow> pred" where
  "col_cmp OpGt c v = ColGt c v"
| "col_cmp OpGe c v = ColGe c v"
| "col_cmp OpLt c v = ColLt c v"
| "col_cmp OpLe c v = ColLe c v"

text \<open>Python's order on strings, by code point.\<close>

fun text_cmp :: "cmp_op \<Rightarrow> string \<Rightarrow> string \<Rightarrow> bool" where
  "text_cmp OpGt s t = (t < s)"
| "text_cmp OpGe s t = (t \<le> s)"
| "text_cmp OpLt s t = (s < t)"
| "text_cmp OpLe s t = (s \<le> t)"

fun none_or_bool :: "pyval \<Rightarrow> bool" where
  "none_or_bool VNone = True"
| "none_or_bool (VBool b) = True"
| "none_or_bool v = False"

text \<open>
  \<open>attr > value\<close> and its three siblings. A column refuses \<open>None\<close>, \<open>True\<close> and \<open>False\<close> with
  \<open>ArgumentError\<close> (only equality may be used with them). A string is ordered with a
  string; every other pair of an attribute that is no column and a value has no order and
  raises \<open>TypeError\<close>.
\<close>

fun attr_cmp :: "cmp_op \<Rightarrow> attr \<Rightarrow> pyval \<Rightarrow> exc + pred" where
  "attr_cmp op (Column c) v = (if none_or_bool v then Inl ArgumentError else Inr (col_cmp op c v))"
| "attr_cmp op (Own (Text s)) (VStr t) = Inr (PConst (text_cmp op s t))"
| "attr_cmp op (Own a) v = Inl TypeError"

section \<open>The filter compiler: \<open>search_sql\<close>\<close>

definition startswith :: "string \<Rightarrow> string \<Rightarrow> bool" where
  "startswith k p = (take (length p) k = p)"

text \<open>The compatibility wrapping of lines 36 to 40: a value that is not a list becomes one.\<close>

fun values_of :: "pyval \<Rightarrow> pyval list" where
  "values_of (VList vs) = vs"
| "values_of v = [v]"

text \<open>
  \<open>for v in values: sql = sql.where(f(v))\<close>, where building the predicate may raise: the
  column lookup comes first in each iteration, so an empty list never looks the column up.
\<close>

fun where_loop :: "(pyval \<Rightarrow> exc + pred) \<Rightarrow> pyval list \<Rightarrow> select_stmt \<Rightarrow> exc + select_stmt" where
  "where_loop f [] s = Inr s"
| "where_loop f (v # vs) s =
     (case f v of Inl e \<Rightarrow> Inl e | Inr p \<Rightarrow> where_loop f vs (add_where p s))"

text \<open>\<open>getattr(table.c, name) > v\<close> and its siblings: the lookup first, then the comparison.\<close>

definition cmp_pred :: "table \<Rightarrow> string \<Rightarrow> cmp_op \<Rightarrow> pyval \<Rightarrow> exc + pred" where
  "cmp_pred tbl name op v =
     (case getattr_c tbl name of Inl e \<Rightarrow> Inl e | Inr a \<Rightarrow> attr_cmp op a v)"

text \<open>
  \<open>getattr(table.c, k[6:]).like(v + '%')\<close>: the lookup first, then the method \<open>like\<close>, which only
  a column has, then \<open>v + '%'\<close>, which raises \<open>TypeError\<close> unless \<open>v\<close> is a string.
\<close>

definition like_pred :: "table \<Rightarrow> string \<Rightarrow> pyval \<Rightarrow> exc + pred" where
  "like_pred tbl name v =
     (case getattr_c tbl name of
        Inl e \<Rightarrow> Inl e
      | Inr (Own a) \<Rightarrow> Inl (AttributeError ''like'')
      | Inr (Column c) \<Rightarrow>
          (case v of VStr t \<Rightarrow> Inr (ColLike c (VStr (t @ ''%''))) | _ \<Rightarrow> Inl TypeError))"

text \<open>\<open>getattr(table.c, name).in_(values)\<close> for a list of values.\<close>

definition in_pred :: "table \<Rightarrow> string \<Rightarrow> pyval list \<Rightarrow> exc + pred" where
  "in_pred tbl name vals =
     (case getattr_c tbl name of
        Inl e \<Rightarrow> Inl e
      | Inr (Own a) \<Rightarrow> Inl (AttributeError ''in_'')
      | Inr (Column c) \<Rightarrow> Inr (ColIn c vals))"

text \<open>One iteration of the loop over \<open>query.keys()\<close>.\<close>

definition search_key :: "table \<Rightarrow> string \<Rightarrow> pyval \<Rightarrow> select_stmt \<Rightarrow> exc + select_stmt" where
  "search_key tbl k raw s =
     (let vals = values_of raw in
      if startswith k ''_gt_'' then where_loop (cmp_pred tbl (drop 4 k) OpGt) vals s
      else if startswith k ''_gte_'' then where_loop (cmp_pred tbl (drop 5 k) OpGe) vals s
      else if startswith k ''_lt_'' then where_loop (cmp_pred tbl (drop 4 k) OpLt) vals s
      else if startswith k ''_lte_'' then where_loop (cmp_pred tbl (drop 5 k) OpLe) vals s
      else if startswith k ''_like_'' then where_loop (like_pred tbl (drop 6 k)) vals s
      else if startswith k ''_in_'' then
        (case in_pred tbl (drop 4 k) vals of
           Inl e \<Rightarrow> Inl e
         | Inr p \<Rightarrow> Inr (add_where p s))
      else
        (case getattr_c tbl k of
           Inl e \<Rightarrow> Inl e
         | Inr a \<Rightarrow> (case vals of [] \<Rightarrow> Inl IndexError | v # _ \<Rightarrow> Inr (add_where (eq_pred a v) s))))"

fun search_sql :: "select_stmt \<Rightarrow> pyval dict \<Rightarrow> table \<Rightarrow> exc + select_stmt" where
  "search_sql s [] tbl = Inr s"
| "search_sql s ((k, raw) # q) tbl =
     (case search_key tbl k raw s of Inl e \<Rightarrow> Inl e | Inr s' \<Rightarrow> search_sql s' q tbl)"

section \<open>The filter loop of \<open>async_esayapi\<close>\<close>

text \<open>
  \<open>DaoMetaClass.query\<close> of \<open>async_esayapi/dao.py\<close>, lines 78 to 98. The values are not wrapped:
  \<open>if not values: continue\<close> skips a key whose value is falsy, \<open>for v in values\<close> iterates a
  list or the characters of a string and raises \<open>TypeError\<close> on anything else, \<open>like\<close> takes
  the value as it is, and a key without comparison prefix becomes an IN over the values.
\<close>

fun iterate :: "pyval \<Rightarrow> exc + pyval list" where
  "iterate (VList vs) = Inr vs"
| "iterate (VStr s) = Inr (map (\<lambda>c. VStr [c]) s)"
| "iterate v = Inl TypeError"

text \<open>\<open>getattr(table.c, name).like(v)\<close>: a column refuses \<open>None\<close>, \<open>True\<close> and \<open>False\<close>.\<close>

definition like_pred_esayapi :: "table \<Rightarrow> string \<Rightarrow> pyval \<Rightarrow> exc + pred" where
  "like_pred_esayapi tbl name v =
     (case getattr_c tbl name of
        Inl e \<Rightarrow> Inl e
      | Inr (Own a) \<Rightarrow> Inl (AttributeError ''like'')
      | Inr (Column c) \<Rightarrow> if none_or_bool v then Inl ArgumentError else Inr (ColLike c v))"

definition iterate_where ::
  "(pyval \<Rightarrow> exc + pred) \<Rightarrow> pyval \<Rightarrow> select_stmt \<Rightarrow> exc + select_stmt" where
  "iterate_where f vals s =
     (case iterate vals of Inl e \<Rightarrow> Inl e | Inr vs \<Rightarrow> where_loop f vs s)"

definition esayapi_key :: "table \<Rightarrow> string \<Rightarrow> pyval \<Rightarrow> select_stmt \<Rightarrow> exc + select_stmt" where
  "esayapi_key tbl k vals s =
     (if \<not> truthy vals then Inr s
      else if startswith k ''_gt_'' then iterate_where (cmp_pred tbl (drop 4 k) OpGt) vals s
      else if startswith k ''_gte_'' then iterate_where (cmp_pred tbl (drop 5 k) OpGe) vals s
      else if startswith k ''_lt_'' then iterate_where (cmp_pred tbl (drop 4 k) OpLt) vals s
      else if startswith k ''_lte_'' then iterate_where (cmp_pred tbl (drop 5 k) OpLe) vals s
      else if startswith k ''_like_'' then iterate_where (like_pred_esayapi tbl (drop 6 k)) vals s
      else
        (case getattr_c tbl k of
           Inl e \<Rightarrow> Inl e
         | Inr (Own a) \<Rightarrow> Inl (AttributeError ''in_'')
         | Inr (Column c) \<Rightarrow>
             (case iterate vals of
                Inl e \<Rightarrow> Inl e
              | Inr vs \<Rightarrow> Inr (add_where (ColIn c vs) s))))"

fun esayapi_where :: "select_stmt \<Rightarrow> pyval dict \<Rightarrow> table \<Rightarrow> exc + select_stmt" where
  "esayapi_where s [] tbl = Inr s"
| "esayapi_where s ((k, vals) # q) tbl =
     (case esayapi_key tbl k vals s of Inl e \<Rightarrow> Inl e | Inr s' \<Rightarrow> esayapi_where s' q tbl)"

section \<open>The specification's reading of a filter key\<close>

text \<open>
  These definitions follow the words of the specification (section 4.1), not the code: a key
  is classified by the recognised prefix it starts with, the prefix is stripped, and the
  table of operators says which predicates the key stands for. No recognised prefix is a
  prefix of another, so at most one matches and \<open>find\<close> returns the longest match.
\<close>

definition recognized_prefixes :: "string list" where
  "recognized_prefixes = [''_gt_'', ''_gte_'', ''_lt_'', ''_lte_'', ''_like_'', ''_in_'']"

definition key_prefix :: "string \<Rightarrow> string" where
  "key_prefix k = (case find (startswith k) recognized_prefixes of Some p \<Rightarrow> p | None \<Rightarrow> [])"

definition key_column :: "string \<Rightarrow> string" where
  "key_column k = drop (length (key_prefix k)) k"

fun str_val :: "pyval \<Rightarrow> string" where
  "str_val (VStr t) = t"
| "str_val _ = []"

fun is_str :: "pyval \<Rightarrow> bool" where
  "is_str (VStr t) = True"
| "is_str _ = False"

text \<open>
  The value list of a key, in the specification's words: a list is taken as it is, and a
  bare scalar, whichever it is, is the list of that one value.
\<close>

fun spec_values :: "pyval \<Rightarrow> pyval list" where
  "spec_values (VList vs) = vs"
| "spec_values VNone = [VNone]"
| "spec_values (VBool b) = [VBool b]"
| "spec_values (VInt n) = [VInt n]"
| "spec_values (VStr t) = [VStr t]"
| "spec_values (VDatetime t) = [VDatetime t]"

definition spec_preds :: "string \<Rightarrow> pyval \<Rightarrow> pred list" where
  "spec_preds k raw =
     (let c = key_column k; vals = spec_values raw; p = key_prefix k in
      if p = ''_gt_'' then map (ColGt c) vals
      else if p = ''_gte_'' then map (ColGe c) vals
      else if p = ''_lt_'' then map (ColLt c) vals
      else if p = ''_lte_'' then map (ColLe c) vals
      else if p = ''_like_'' then map (\<lambda>v. ColLike c (VStr (str_val v @ ''%''))) vals
      else if p = ''_in_'' then [ColIn c vals]
      else map (ColEq c) (take 1 vals))"

text \<open>
  A name that the column collection presents as a column: the table has the column, and no
  attribute of the collection object hides it.
\<close>

definition has_column :: "table \<Rightarrow> string \<Rightarrow> bool" where
  "has_column tbl name = (name \<in> set (columns tbl) \<and> name \<notin> set (map fst (own_attrs tbl)))"

definition own_attr :: "table \<Rightarrow> string \<Rightarrow> bool" where
  "own_attr tbl name = (name \<in> set (map fst (own_attrs tbl)))"

definition order_prefixes :: "string list" where
  "order_prefixes = [''_gt_'', ''_gte_'', ''_lt_'', ''_lte_'']"

text \<open>
  A key the compiler accepts: its column is presented by the collection, the values of an
  order comparison are not \<open>None\<close>, \<open>True\<close> or \<open>False\<close>, a \<open>_like_\<close> key has string values, and a
  key without prefix has a first value.
\<close>

definition filter_key_ok :: "table \<Rightarrow> string \<Rightarrow> pyval \<Rightarrow> bool" where
  "filter_key_ok tbl k raw =
     (has_column tbl (key_column k)
      \<and> (key_prefix k \<in> set order_prefixes \<longrightarrow> list_all (\<lambda>v. \<not> none_or_bool v) (spec_values raw))
      \<and> (key_prefix k = ''_like_'' \<longrightarrow> list_all is_str (spec_values raw))
      \<and> (key_prefix k = [] \<longrightarrow> spec_values raw \<noteq> []))"

definition comparison_prefixes :: "string list" where
  "comparison_prefixes = [''_gt_'', ''_gte_'', ''_lt_'', ''_lte_'', ''_like_'']"

section \<open>Record transcoders\<close>

datatype dao = BaseDao | BusinessBaseDao

text \<open>\<open>new_data = dict(); for key, value in data.items(): new_data[key] = value\<close>\<close>

definition copy_dict :: "'v dict \<Rightarrow> 'v dict" where
  "copy_dict d = fold (\<lambda>(k, v) nd. dict_set k v nd) d []"

text \<open>\<open>BusinessBaseDao.reformatter\<close> of \<open>async_easyapi/dao.py\<close>; \<open>unscoped\<close> is the keyword
  argument, false when it is not passed.\<close>

definition business_reformatter :: "pyval dict \<Rightarrow> bool \<Rightarrow> pyval dict" where
  "business_reformatter data unscoped =
     (let new_data = copy_dict data in
      if \<not> unscoped \<and> \<not> has_key data ''deleted_at''
      then dict_set ''deleted_at'' VNone new_data
      else new_data)"

text \<open>\<open>cls.reformatter\<close>: \<open>BaseDao\<close> returns the data as it is.\<close>

definition reformatter :: "dao \<Rightarrow> pyval dict \<Rightarrow> bool \<Rightarrow> pyval dict" where
  "reformatter cls data unscoped =
     (case cls of BaseDao \<Rightarrow> data | BusinessBaseDao \<Rightarrow> business_reformatter data unscoped)"

text \<open>\<open>BusinessBaseDao.reformatter\<close> of \<open>easyapi/dao.py\<close>, which reads \<open>unscoped\<close> from the
  data itself.\<close>

definition business_reformatter_sync :: "pyval dict \<Rightarrow> pyval dict" where
  "business_reformatter_sync data =
     (let new_data = copy_dict data;
          unscoped = (case dict_get data ''unscoped'' of None \<Rightarrow> False | Some v \<Rightarrow> truthy v) in
      if \<not> unscoped \<and> \<not> has_key data ''deleted_at''
      then dict_set ''deleted_at'' VNone new_data
      else new_data)"

text \<open>
  Modelled from the spec: \<open>type_to_json\<close> (imported from \<open>easyapi_tools.util\<close>, or \<open>.util\<close> in
  \<open>easyapi\<close>) is not among the sources. Section 4.3 says it converts native timestamp,
  decimal and binary values into plain JSON-safe scalars, timestamps into ISO-8601 strings.
  Of those native types the model has the timestamp; keys are kept.
\<close>

fun json_value :: "pyval \<Rightarrow> pyval" where
  "json_value (VDatetime t) = VStr t"
| "json_value (VList vs) = VList (map json_value vs)"
| "json_value v = v"

text \<open>Modelled from the spec: the absent \<open>type_to_json\<close>, applied to every value of a record.\<close>

definition type_to_json :: "pyval dict \<Rightarrow> pyval dict" where
  "type_to_json data = map (\<lambda>(k, v). (k, json_value v)) data"

fun json_safe :: "pyval \<Rightarrow> bool" where
  "json_safe (VDatetime t) = False"
| "json_safe (VList vs) = list_all json_safe vs"
| "json_safe v = True"

text \<open>\<open>BaseDao.formatter\<close>, and \<open>BusinessBaseDao.formatter\<close> of \<open>async_easyapi/dao.py\<close>, which
  only calls it.\<close>

definition base_formatter :: "pyval dict \<Rightarrow> pyval dict" where
  "base_formatter data = type_to_json data"

definition business_formatter :: "pyval dict \<Rightarrow> pyval dict" where
  "business_formatter data = base_formatter data"

text \<open>\<open>BusinessBaseDao.formatter\<close> of \<open>easyapi/dao.py\<close>, which drops the audit columns.\<close>

definition ignore_columns :: "string list" where
  "ignore_columns = [''created_at'', ''deleted_at'', ''updated_at'']"

definition business_formatter_sync :: "pyval dict \<Rightarrow> pyval dict" where
  "business_formatter_sync data =
     type_to_json
       (fold (\<lambda>(k, v) nd. if k \<notin> set ignore_columns then dict_set k v nd else nd) data [])"

definition formatter :: "dao \<Rightarrow> pyval dict \<Rightarrow> pyval dict" where
  "formatter cls data = (case cls of BaseDao \<Rightarrow> base_formatter data | BusinessBaseDao \<Rightarrow> business_formatter data)"

section \<open>Statements built by the read operations\<close>

text \<open>
  Each read operation of \<open>BaseDao\<close> builds one statement and hands it to the connection; the
  functions below return that statement, or the exception raised while building it. The
  query argument is the dictionary (\<open>None\<close> is replaced by \<open>{}\<close> on entry).
\<close>

text \<open>\<open>if query: sql = search_sql(sql, query, table)\<close>\<close>

definition filtered :: "select_stmt \<Rightarrow> pyval dict \<Rightarrow> table \<Rightarrow> exc + select_stmt" where
  "filtered s q tbl = (if q \<noteq> [] then search_sql s q tbl else Inr s)"

text \<open>
  \<open>getattr(table.c, name, table.c.id)\<close>: the default \<open>table.c.id\<close> is evaluated before the
  call, \<open>getattr\<close> itself raises \<open>TypeError\<close> for a name that is not a string, and the default
  is returned only when the collection has no attribute of that name at all.
\<close>

definition getattr_c_default :: "table \<Rightarrow> pyval \<Rightarrow> exc + attr" where
  "getattr_c_default tbl name =
     (case getattr_c tbl ''id'' of
        Inl e \<Rightarrow> Inl e
      | Inr dflt \<Rightarrow>
          (case name of
             VStr n \<Rightarrow> (case getattr_c tbl n of Inl e \<Rightarrow> Inr dflt | Inr a \<Rightarrow> Inr a)
           | _ \<Rightarrow> Inl TypeError))"

definition add_order :: "order_term \<Rightarrow> select_stmt \<Rightarrow> select_stmt" where
  "add_order t s = s\<lparr>order_by := order_by s @ [t]\<rparr>"

text \<open>\<open>sql.order_by(a.desc())\<close>: only a column has the method \<open>desc\<close>.\<close>

fun order_desc :: "attr \<Rightarrow> select_stmt \<Rightarrow> exc + select_stmt" where
  "order_desc (Column c) s = Inr (add_order (ByColumn c Desc) s)"
| "order_desc (Own a) s = Inl (AttributeError ''desc'')"

text \<open>
  \<open>sql.order_by(a)\<close>: a column is taken ascending, a string as text to order by, \<open>None\<close>
  cancels the ordering, and any other object is refused with \<open>ArgumentError\<close>.
\<close>

fun order_asc :: "attr \<Rightarrow> select_stmt \<Rightarrow> exc + select_stmt" where
  "order_asc (Column c) s = Inr (add_order (ByColumn c Asc) s)"
| "order_asc (Own (Text t)) s = Inr (add_order (ByText t) s)"
| "order_asc (Own NoneValue) s = Inr (s\<lparr>order_by := []\<rparr>)"
| "order_asc (Own Object) s = Inl ArgumentError"

definition get_stmt :: "dao \<Rightarrow> bool \<Rightarrow> pyval dict \<Rightarrow> table \<Rightarrow> exc + select_stmt" where
  "get_stmt cls unscoped query tbl = filtered select_table (reformatter cls query unscoped) tbl"




text \<open>
  Lines 187 to 196. The pager holds integers; \<open>if per_page:\<close> and \<open>if page:\<close> test for a value
  that is present and not zero, \<open>per_page is None\<close> for one that is absent.
\<close>

definition apply_pager :: "int dict option \<Rightarrow> select_stmt \<Rightarrow> select_stmt" where
  "apply_pager pager s =
     (case pager of
        None \<Rightarrow> s
      | Some pg \<Rightarrow>
          (let per_page = dict_get pg ''_per_page'';
               page = dict_get pg ''_page'';
               s1 = (case per_page of
                       None \<Rightarrow> s
                     | Some pp \<Rightarrow> if pp \<noteq> 0 then s\<lparr>limit := Some pp\<rparr> else s)
           in case page of
                None \<Rightarrow> s1
              | Some p \<Rightarrow>
                  if p \<noteq> 0 then
                    (case per_page of
                       None \<Rightarrow> s1\<lparr>offset := Some ((p - 1) * 30), limit := Some 30\<rparr>
                     | Some pp \<Rightarrow> s1\<lparr>offset := Some ((p - 1) * pp)\<rparr>)
                  else s1))"

text \<open>Lines 197 to 204.\<close>

definition apply_sorter :: "pyval dict option \<Rightarrow> table \<Rightarrow> select_stmt \<Rightarrow> exc + select_stmt" where
  "apply_sorter sorter tbl s =
     (let sd = (case sorter of None \<Rightarrow> [] | Some d \<Rightarrow> d);
          order_key = (case dict_get sd ''_order_by'' of None \<Rightarrow> VStr ''id'' | Some v \<Rightarrow> v);
          desc = (case dict_get sd ''_desc'' of None \<Rightarrow> VBool True | Some v \<Rightarrow> v)
      in case getattr_c_default tbl order_key of
           Inl e \<Rightarrow> Inl e
         | Inr a \<Rightarrow> if truthy desc then order_desc a s else order_asc a s)"

definition query_stmt ::
  "dao \<Rightarrow> bool \<Rightarrow> pyval dict \<Rightarrow> int dict option \<Rightarrow> pyval dict option \<Rightarrow> table \<Rightarrow> exc + select_stmt" where
  "query_stmt cls unscoped query pager sorter tbl =
     (case filtered select_table (reformatter cls query unscoped) tbl of
        Inl e \<Rightarrow> Inl e
      | Inr s \<Rightarrow> apply_sorter sorter tbl (apply_pager pager s))"

section \<open>Statements built by the write operations\<close>

datatype statement =
    Select select_stmt
  | Insert "pyval dict"
  | Update "pred list" "pyval dict"
  | Delete "pred list"

text \<open>
  \<open>for key, value in where_dict.items(): if hasattr(table.c, key): sql = sql.where(getattr(table.c, key) == value)\<close>.
  The key is looked up as it is, without stripping a prefix, and the value is compared as
  it is. \<open>hasattr\<close> holds for every attribute that \<open>getattr\<close> finds, a column or not.
\<close>

fun where_dict_preds :: "table \<Rightarrow> pyval dict \<Rightarrow> pred list" where
  "where_dict_preds tbl [] = []"
| "where_dict_preds tbl ((key, val) # w) =
     (case getattr_c tbl key of
        Inl e \<Rightarrow> where_dict_preds tbl w
      | Inr a \<Rightarrow> eq_pred a val # where_dict_preds tbl w)"

text \<open>\<open>BaseDao.update\<close>, \<open>BaseDao.delete\<close> and \<open>BaseDao.insert\<close>, up to the statement they
  execute. \<open>cls.reformatter\<close> is applied to the where-condition and to the data alike.\<close>

definition update_stmt :: "dao \<Rightarrow> bool \<Rightarrow> pyval dict \<Rightarrow> pyval dict \<Rightarrow> table \<Rightarrow> statement" where
  "update_stmt cls unscoped where_dict data tbl =
     (let where_dict' = reformatter cls where_dict unscoped;
          data' = reformatter cls data unscoped
      in Update (where_dict_preds tbl where_dict') data')"


definition insert_stmt :: "dao \<Rightarrow> bool \<Rightarrow> pyval dict \<Rightarrow> statement" where
  "insert_stmt cls unscoped data = Insert (reformatter cls data unscoped)"

text \<open>
  The operations of \<open>BusinessBaseDao\<close>. \<open>now\<close> is what \<open>datetime.datetime.now()\<close> returns at
  the call, \<open>modify_by\<close> the caller.
\<close>

definition business_update_stmt ::
  "pyval dict \<Rightarrow> pyval dict \<Rightarrow> bool \<Rightarrow> string \<Rightarrow> string \<Rightarrow> table \<Rightarrow> statement" where
  "business_update_stmt where_dict data unscoped modify_by now tbl =
     (let data1 = dict_set ''updated_at'' (VDatetime now) data;
          data2 = dict_set ''updated_by'' (VStr modify_by) data1
      in update_stmt BusinessBaseDao unscoped where_dict data2 tbl)"

definition business_delete_stmt ::
  "pyval dict \<Rightarrow> bool \<Rightarrow> string \<Rightarrow> string \<Rightarrow> table \<Rightarrow> statement" where
  "business_delete_stmt where_dict unscoped modify_by now tbl =
     (let data1 = dict_set ''deleted_at'' (VDatetime now) [];
          data2 = dict_set ''updated_by'' (VStr modify_by) data1
      in update_stmt BusinessBaseDao unscoped where_dict data2 tbl)"

definition business_insert_stmt :: "pyval dict \<Rightarrow> string \<Rightarrow> bool \<Rightarrow> string \<Rightarrow> statement" where
  "business_insert_stmt data modify_by unscoped now =
     (let data1 = dict_set ''created_at'' (VDatetime now) data;
          data2 = dict_set ''created_by'' (VStr modify_by) data1
      in insert_stmt BusinessBaseDao unscoped data2)"

section \<open>Executing a statement\<close>

text \<open>
  Modelled from the spec: \<open>db_util.MysqlDB.execute\<close> and the SQL engine behind it are not
  among the sources. Section 6 asks of the storage backend that it executes a statement and
  fetches one row, all rows or a scalar. A table is the list of its rows, a row gives every
  column its value with \<open>VNone\<close> for NULL. How the engine compares values (collation,
  coercion) is left open as the parameter \<open>eng\<close>; only \<open>column == None\<close>, which SQLAlchemy
  renders as \<open>column IS NULL\<close>, and the constants are fixed. A row satisfies a WHERE clause
  when it satisfies each of its predicates. An \<open>UPDATE\<close> sets the named columns of the rows
  that satisfy the clause and leaves everything else; an \<open>INSERT\<close> appends a row that has the
  given values over the column defaults \<open>dflt\<close>; both refuse a value for a name that is no
  column of the table.
\<close>

type_synonym row = "string \<Rightarrow> pyval"

type_synonym engine = "pred \<Rightarrow> row \<Rightarrow> bool"

text \<open>Modelled from the spec: whether a row satisfies one predicate of a WHERE clause; the
  engine that evaluates it is absent.\<close>

fun holds :: "engine \<Rightarrow> row \<Rightarrow> pred \<Rightarrow> bool" where
  "holds eng r (ColEq c VNone) = (r c = VNone)"
| "holds eng r (PConst b) = b"
| "holds eng r p = eng p r"

definition matches :: "engine \<Rightarrow> pred list \<Rightarrow> row \<Rightarrow> bool" where
  "matches eng ws r = list_all (holds eng r) ws"

definition set_values :: "pyval dict \<Rightarrow> row \<Rightarrow> row" where
  "set_values vals r = fold (\<lambda>(k, v) r'. r'(k := v)) vals r"

definition unknown_column :: "table \<Rightarrow> pyval dict \<Rightarrow> string option" where
  "unknown_column tbl vals = find (\<lambda>k. k \<notin> set (columns tbl)) (dict_keys vals)"

text \<open>Modelled from the spec: the effect of \<open>MysqlDB.execute\<close>, which is absent, on the table.\<close>

fun execute :: "engine \<Rightarrow> table \<Rightarrow> row \<Rightarrow> statement \<Rightarrow> row list \<Rightarrow> exc + row list" where
  "execute eng tbl dflt (Select s) db = Inr db"
| "execute eng tbl dflt (Insert vals) db =
     (case unknown_column tbl vals of
        Some k \<Rightarrow> Inl (CompileError k)
      | None \<Rightarrow> Inr (db @ [set_values vals dflt]))"
| "execute eng tbl dflt (Update ws vals) db =
     (case unknown_column tbl vals of
        Some k \<Rightarrow> Inl (CompileError k)
      | None \<Rightarrow> Inr (map (\<lambda>r. if matches eng ws r then set_values vals r else r) db))"
| "execute eng tbl dflt (Delete ws) db = Inr (filter (\<lambda>r. \<not> matches eng ws r) db)"

text \<open>Modelled from the spec: \<open>res.first()\<close> of the absent result object, for a select without
  paging: the first row that satisfies the clause.\<close>

definition fetch_first :: "engine \<Rightarrow> select_stmt \<Rightarrow> row list \<Rightarrow> row option" where
  "fetch_first eng s db = find (matches eng (wheres s)) db"

definition row_dict :: "table \<Rightarrow> row \<Rightarrow> pyval dict" where
  "row_dict tbl r = map (\<lambda>c. (c, r c)) (columns tbl)"

text \<open>\<open>BaseDao.get\<close>: \<open>None\<close> when no row is found, the formatted row otherwise.\<close>

definition dao_get ::
  "engine \<Rightarrow> dao \<Rightarrow> bool \<Rightarrow> pyval dict \<Rightarrow> table \<Rightarrow> row list \<Rightarrow> exc + pyval dict option" where
  "dao_get eng cls unscoped query tbl db =
     (case get_stmt cls unscoped query tbl of
        Inl e \<Rightarrow> Inl e
      | Inr s \<Rightarrow>
          (case fetch_first eng s db of
             None \<Rightarrow> Inr None
           | Some r \<Rightarrow> Inr (Some (formatter cls (row_dict tbl r)))))"

definition business_delete ::
  "engine \<Rightarrow> table \<Rightarrow> row \<Rightarrow> pyval dict \<Rightarrow> bool \<Rightarrow> string \<Rightarrow> string \<Rightarrow> row list \<Rightarrow> exc + row list" where
  "business_delete eng tbl dflt where_dict unscoped modify_by now db =
     execute eng tbl dflt (business_delete_stmt where_dict unscoped modify_by now tbl) db"

definition business_update ::
  "engine \<Rightarrow> table \<Rightarrow> row \<Rightarrow> pyval dict \<Rightarrow> pyval dict \<Rightarrow> bool \<Rightarrow> string \<Rightarrow> string \<Rightarrow> row list
     \<Rightarrow> exc + row list" where
  "business_update eng tbl dflt where_dict data unscoped modify_by now db =
     execute eng tbl dflt (business_update_stmt where_dict data unscoped modify_by now tbl) db"

definition business_insert ::
  "engine \<Rightarrow> table \<Rightarrow> row \<Rightarrow> pyval dict \<Rightarrow> string \<Rightarrow> bool \<Rightarrow> string \<Rightarrow> row list \<Rightarrow> exc + row list" where
  "business_insert eng tbl dflt data modify_by unscoped now db =
     execute eng tbl dflt (business_insert_stmt data modify_by unscoped now) db"

text \<open>A plain engine for evaluation: equality of values, order on integers, prefix match.\<close>

fun plain_engine :: engine where
  "plain_engine (ColEq c v) r = (r c = v)"
| "plain_engine (ColGt c (VInt n)) r = (case r c of VInt m \<Rightarrow> m > n | _ \<Rightarrow> False)"
| "plain_engine (ColGe c (VInt n)) r = (case r c of VInt m \<Rightarrow> m \<ge> n | _ \<Rightarrow> False)"
| "plain_engine (ColLt c (VInt n)) r = (case r c of VInt m \<Rightarrow> m < n | _ \<Rightarrow> False)"
| "plain_engine (ColLe c (VInt n)) r = (case r c of VInt m \<Rightarrow> m \<le> n | _ \<Rightarrow> False)"
| "plain_engine (ColLike c (VStr pat)) r =
     (case r c of VStr t \<Rightarrow> take (length pat - 1) t = butlast pat | _ \<Rightarrow> False)"
| "plain_engine (ColIn c vs) r = (r c \<in> set vs)"
| "plain_engine (PConst b) r = b"
| "plain_engine p r = False"

section \<open>The transaction scope\<close>

text \<open>
  What the connection does is given by the outcome of each of its calls: \<open>None\<close> when the
  call returns, the exception when it raises. The trace records the calls that were made
  and how they ended.
\<close>

record driver =
  acquire_raises :: "exc option"
  begin_raises :: "exc option"
  commit_raises :: "exc option"
  rollback_raises :: "exc option"
  close_raises :: "exc option"

datatype tx_event =
    Acquired
  | Begun
  | Committed
  | CommitFailed
  | RolledBack
  | RollbackFailed
  | Closed
  | CloseFailed

text \<open>
  \<open>Transaction.__aexit__\<close> of \<open>async_easyapi/dao.py\<close> (and \<open>__exit__\<close> of \<open>easyapi/dao.py\<close>):
  the trace and the exception it raises, if any. The argument is the exception of the
  enclosed block, which the method receives and does not read. \<open>except Exception\<close> catches
  the exception of the commit only when it derives from \<open>Exception\<close>; \<open>finally\<close> closes the
  connection in every case.
\<close>

definition aexit :: "driver \<Rightarrow> exc option \<Rightarrow> tx_event list \<times> exc option" where
  "aexit d exc_info =
     (let (tried, raised) =
            (case commit_raises d of
               None \<Rightarrow> ([Committed], None)
             | Some e \<Rightarrow>
                 if is_exception e then
                   (case rollback_raises d of
                      None \<Rightarrow> ([CommitFailed, RolledBack], Some e)
                    | Some e' \<Rightarrow> ([CommitFailed, RollbackFailed], Some e'))
                 else ([CommitFailed], Some e))
      in case close_raises d of
           None \<Rightarrow> (tried @ [Closed], raised)
         | Some e \<Rightarrow> (tried @ [CloseFailed], Some e))"

text \<open>\<open>Transaction.__aexit__\<close> of \<open>async_esayapi/dao.py\<close>, which has no \<open>finally\<close>.\<close>

definition aexit_esayapi :: "driver \<Rightarrow> exc option \<Rightarrow> tx_event list \<times> exc option" where
  "aexit_esayapi d exc_info =
     (case commit_raises d of
        None \<Rightarrow> ([Committed], None)
      | Some e \<Rightarrow>
          if is_exception e then
            (case rollback_raises d of
               None \<Rightarrow> ([CommitFailed, RolledBack], Some e)
             | Some e' \<Rightarrow> ([CommitFailed, RollbackFailed], Some e'))
          else ([CommitFailed], Some e))"

text \<open>
  \<open>async with get_tx(db) as conn: body\<close>. \<open>__aenter__\<close> acquires the connection and begins
  the transaction; an exception there leaves the statement before the block and without
  \<open>__aexit__\<close>. \<open>body\<close> is the exception the block raises, if any. \<open>__aexit__\<close> returns
  \<open>None\<close>, so the block's exception is raised again after it, unless \<open>__aexit__\<close> raises one
  itself. \<open>with_tx\<close> is the statement for either \<open>__aexit__\<close>.
\<close>

definition with_tx ::
  "(driver \<Rightarrow> exc option \<Rightarrow> tx_event list \<times> exc option) \<Rightarrow> driver \<Rightarrow> exc option
     \<Rightarrow> tx_event list \<times> exc option" where
  "with_tx exit_method d body =
     (case acquire_raises d of
        Some e \<Rightarrow> ([], Some e)
      | None \<Rightarrow>
          (case begin_raises d of
             Some e \<Rightarrow> ([Acquired], Some e)
           | None \<Rightarrow>
               (let (evs, raised) = exit_method d body
                in ([Acquired, Begun] @ evs, (case raised of Some e \<Rightarrow> Some e | None \<Rightarrow> body)))))"

definition run_tx :: "driver \<Rightarrow> exc option \<Rightarrow> tx_event list \<times> exc option" where
  "run_tx d body = with_tx aexit d body"

definition run_tx_esayapi :: "driver \<Rightarrow> exc option \<Rightarrow> tx_event list \<times> exc option" where
  "run_tx_esayapi d body = with_tx aexit_esayapi d body"

section \<open>The controller\<close>

text \<open>
  \<open>except (OperationalError, IntegrityError, DataError) as e: raise BusinessError(code=500, http_code=500, err_info=str(e))\<close>;
  any other exception passes.
\<close>

fun reraise :: "exc \<Rightarrow> exc" where
  "reraise (OperationalError m) = BusinessError 500 500 m"
| "reraise (IntegrityError m) = BusinessError 500 500 m"
| "reraise (DataError m) = BusinessError 500 500 m"
| "reraise e = e"

fun caught :: "exc \<Rightarrow> bool" where
  "caught (OperationalError m) = True"
| "caught (IntegrityError m) = True"
| "caught (DataError m) = True"
| "caught e = False"

fun message :: "exc \<Rightarrow> string" where
  "message (OperationalError m) = m"
| "message (IntegrityError m) = m"
| "message (DataError m) = m"
| "message (ProgrammingError m) = m"
| "message (AttributeError m) = m"
| "message (CompileError m) = m"
| "message (OtherError m) = m"
| "message (BusinessError c h m) = m"
| "message e = []"

text \<open>The class attribute \<open>__dao__\<close>: what each of its operations does when called.\<close>

record dao_ops =
  ops_query :: "pyval dict \<Rightarrow> int dict option \<Rightarrow> pyval dict option \<Rightarrow> exc + pyval dict list"
  ops_count :: "pyval dict \<Rightarrow> exc + int"
  ops_insert :: "pyval dict \<Rightarrow> exc + int"
  ops_update :: "pyval dict \<Rightarrow> pyval dict \<Rightarrow> exc + int"
  ops_delete :: "pyval dict \<Rightarrow> exc + int"

text \<open>
  \<open>asyncio.gather\<close> of two calls: both results, or the exception of the call that fails.
  When both fail, the one that fails first is raised; \<open>second_first\<close> says it is the second.
\<close>

definition gather :: "bool \<Rightarrow> exc + 'a \<Rightarrow> exc + 'b \<Rightarrow> exc + ('a \<times> 'b)" where
  "gather second_first a b =
     (case a of
        Inl e1 \<Rightarrow> (case b of Inl e2 \<Rightarrow> Inl (if second_first then e2 else e1) | Inr y \<Rightarrow> Inl e1)
      | Inr x \<Rightarrow> (case b of Inl e2 \<Rightarrow> Inl e2 | Inr y \<Rightarrow> Inr (x, y)))"

definition controller_get :: "dao_ops \<Rightarrow> pyval \<Rightarrow> exc + pyval dict option" where
  "controller_get dao ident =
     (case ops_query dao [(''id'', ident)] None None of
        Inl e \<Rightarrow> Inl (reraise e)
      | Inr data \<Rightarrow> (case data of [] \<Rightarrow> Inr None | x # _ \<Rightarrow> Inr (Some x)))"

definition controller_query ::
  "dao_ops \<Rightarrow> bool \<Rightarrow> pyval dict \<Rightarrow> int dict option \<Rightarrow> pyval dict option \<Rightarrow> exc + (pyval dict list \<times> int)" where
  "controller_query dao second_first query pager sorter =
     (case gather second_first (ops_query dao query pager sorter) (ops_count dao query) of
        Inl e \<Rightarrow> Inl (reraise e)
      | Inr res \<Rightarrow> Inr res)"

text \<open>\<open>validator\<close> is the class attribute \<open>__validator__\<close>: \<open>None\<close>, or its \<open>validate\<close>.\<close>

definition validation_error :: "(pyval dict \<Rightarrow> string option) option \<Rightarrow> pyval dict \<Rightarrow> exc option" where
  "validation_error validator data =
     (case validator of
        None \<Rightarrow> None
      | Some validate \<Rightarrow>
          (case validate data of None \<Rightarrow> None | Some err \<Rightarrow> Some (BusinessError 500 200 err)))"

definition controller_insert ::
  "dao_ops \<Rightarrow> (pyval dict \<Rightarrow> string option) option \<Rightarrow> pyval dict \<Rightarrow> exc + int" where
  "controller_insert dao validator data =
     (case validation_error validator data of
        Some e \<Rightarrow> Inl e
      | None \<Rightarrow> (case ops_insert dao data of Inl e \<Rightarrow> Inl (reraise e) | Inr res \<Rightarrow> Inr res))"

definition controller_update ::
  "dao_ops \<Rightarrow> (pyval dict \<Rightarrow> string option) option \<Rightarrow> pyval \<Rightarrow> pyval dict \<Rightarrow> exc + int" where
  "controller_update dao validator ident data =
     (case validation_error validator data of
        Some e \<Rightarrow> Inl e
      | None \<Rightarrow>
          (case ops_update dao [(''id'', ident)] data of
             Inl e \<Rightarrow> Inl (reraise e)
           | Inr res \<Rightarrow> Inr res))"

definition controller_delete :: "dao_ops \<Rightarrow> pyval \<Rightarrow> exc + int" where
  "controller_delete dao ident =
     (case ops_delete dao [(''id'', ident)] of Inl e \<Rightarrow> Inl (reraise e) | Inr res \<Rightarrow> Inr res)"

section \<open>Auxiliary notions for the statements of the theorems\<close>

text \<open>
  A table as SQLAlchemy presents it: the given columns, and the methods \<open>keys\<close>, \<open>values\<close>,
  \<open>items\<close> and \<open>get\<close> of the column collection as attributes of the collection object.
\<close>

definition sa_table :: "string list \<Rightarrow> table" where
  "sa_table cols =
     \<lparr>columns = cols,
      own_attrs = [(''keys'', Object), (''values'', Object), (''items'', Object), (''get'', Object)]\<rparr>"

text \<open>What \<open>cls.reformatter\<close> appends to a dictionary with distinct keys.\<close>

definition injected :: "dao \<Rightarrow> bool \<Rightarrow> pyval dict \<Rightarrow> pyval dict" where
  "injected cls unscoped d =
     (if cls = BusinessBaseDao \<and> \<not> unscoped \<and> \<not> has_key d ''deleted_at''
      then [(''deleted_at'', VNone)] else [])"

text \<open>The row that is NULL in every column, and the row that holds the given values.\<close>

definition null_row :: row where
  "null_row = (\<lambda>c. VNone)"

definition row_of :: "pyval dict \<Rightarrow> row" where
  "row_of d = set_values d null_row"

text \<open>A record without audit columns, and one whose values \<open>type_to_json\<close> leaves alone.\<close>

definition no_audit_columns :: "pyval dict \<Rightarrow> bool" where
  "no_audit_columns d = list_all (\<lambda>k. \<not> has_key d k) ignore_columns"

definition json_safe_record :: "pyval dict \<Rightarrow> bool" where
  "json_safe_record d = list_all (\<lambda>(k, v). json_safe v) d"

fun is_list :: "pyval \<Rightarrow> bool" where
  "is_list (VList vs) = True"
| "is_list v = False"

text \<open>A connection on which every call returns, and one whose commit raises.\<close>

definition sound_driver :: driver where
  "sound_driver =
     \<lparr>acquire_raises = None, begin_raises = None, commit_raises = None,
      rollback_raises = None, close_raises = None\<rparr>"

definition commit_failing_driver :: "exc \<Rightarrow> driver" where
  "commit_failing_driver e = sound_driver\<lparr>commit_raises := Some e\<rparr>"

text \<open>A \<open>__dao__\<close> whose every operation raises the given exception.\<close>

definition failing_dao :: "exc \<Rightarrow> dao_ops" where
  "failing_dao e =
     \<lparr>ops_query = (\<lambda>query pager sorter. Inl e),
      ops_count = (\<lambda>query. Inl e),
      ops_insert = (\<lambda>data. Inl e),
      ops_update = (\<lambda>where_dict data. Inl e),
      ops_delete = (\<lambda>where_dict. Inl e)\<rparr>"

section \<open>The filter compiler meets the table of operators\<close>

lemma values_of_spec: "values_of raw = spec_values raw"
  by (cases raw) simp_all

lemma getattr_c_column: "has_column tbl name \<Longrightarrow> getattr_c tbl name = Inr (Column name)"
  by (simp add: getattr_c_def has_column_def map_of_eq_None_iff[symmetric])



lemma where_loop_map:
  "\<forall>v \<in> set vs. f v = Inr (g v) \<Longrightarrow>
   where_loop f vs s = Inr (s\<lparr>wheres := wheres s @ map g vs\<rparr>)"
  by (induction vs arbitrary: s) (simp_all add: add_where_def)


lemma key_prefix_cases:
  "(startswith k ''_gt_'' \<and> key_prefix k = ''_gt_'') \<or>
   (\<not> startswith k ''_gt_'' \<and> startswith k ''_gte_'' \<and> key_prefix k = ''_gte_'') \<or>
   (\<not> startswith k ''_gt_'' \<and> \<not> startswith k ''_gte_'' \<and> startswith k ''_lt_'' \<and> key_prefix k = ''_lt_'') \<or>
   (\<not> startswith k ''_gt_'' \<and> \<not> startswith k ''_gte_'' \<and> \<not> startswith k ''_lt_'' \<and> startswith k ''_lte_'' \<and> key_prefix k = ''_lte_'') \<or>
   (\<not> startswith k ''_gt_'' \<and> \<not> startswith k ''_gte_'' \<and> \<not> startswith k ''_lt_'' \<and> \<not> startswith k ''_lte_'' \<and> startswith k ''_like_'' \<and> key_prefix k = ''_like_'') \<or>
   (\<not> startswith k ''_gt_'' \<and> \<not> startswith k ''_gte_'' \<and> \<not> startswith k ''_lt_'' \<and> \<not> startswith k ''_lte_'' \<and> \<not> startswith k ''_like_'' \<and> startswith k ''_in_'' \<and> key_prefix k = ''_in_'') \<or>
   (\<not> startswith k ''_gt_'' \<and> \<not> startswith k ''_gte_'' \<and> \<not> startswith k ''_lt_'' \<and> \<not> startswith k ''_lte_'' \<and> \<not> startswith k ''_like_'' \<and> \<not> startswith k ''_in_'' \<and> key_prefix k = [])"
  by (simp add: key_prefix_def recognized_prefixes_def)

lemma col_cmp_fun:
  "col_cmp OpGt c = ColGt c" "col_cmp OpGe c = ColGe c"
  "col_cmp OpLt c = ColLt c" "col_cmp OpLe c = ColLe c"
  by (rule ext, simp)+

lemma where_loop_cmp:
  "has_column tbl name \<Longrightarrow> list_all (\<lambda>v. \<not> none_or_bool v) vs \<Longrightarrow>
   where_loop (cmp_pred tbl name op) vs s = Inr (s\<lparr>wheres := wheres s @ map (col_cmp op name) vs\<rparr>)"
  by (rule where_loop_map) (simp add: cmp_pred_def getattr_c_column list_all_iff)

lemma like_pred_str:
  "has_column tbl name \<Longrightarrow> is_str v \<Longrightarrow>
   like_pred tbl name v = Inr (ColLike name (VStr (str_val v @ ''%'')))"
  by (cases v) (simp_all add: like_pred_def getattr_c_column)

lemma where_loop_like:
  "has_column tbl name \<Longrightarrow> list_all is_str vs \<Longrightarrow>
   where_loop (like_pred tbl name) vs s =
     Inr (s\<lparr>wheres := wheres s @ map (\<lambda>v. ColLike name (VStr (str_val v @ ''%''))) vs\<rparr>)"
  by (rule where_loop_map) (simp add: like_pred_str list_all_iff)






lemma key_column_simps:
  "key_prefix k = ''_gt_'' \<Longrightarrow> key_column k = drop 4 k"
  "key_prefix k = ''_gte_'' \<Longrightarrow> key_column k = drop 5 k"
  "key_prefix k = ''_lt_'' \<Longrightarrow> key_column k = drop 4 k"
  "key_prefix k = ''_lte_'' \<Longrightarrow> key_column k = drop 5 k"
  "key_prefix k = ''_like_'' \<Longrightarrow> key_column k = drop 6 k"
  "key_prefix k = ''_in_'' \<Longrightarrow> key_column k = drop 4 k"
  "key_prefix k = [] \<Longrightarrow> key_column k = k"
  by (simp_all add: key_column_def eval_nat_numeral)

lemma search_key_ok:
  assumes "filter_key_ok tbl k raw"
  shows "search_key tbl k raw s = Inr (s\<lparr>wheres := wheres s @ spec_preds k raw\<rparr>)"
  using assms key_prefix_cases[of k]
  apply (elim disjE conjE)
  apply (simp_all add: search_key_def spec_preds_def filter_key_ok_def key_column_simps
        order_prefixes_def values_of_spec col_cmp_fun
        where_loop_cmp where_loop_like in_pred_def getattr_c_column add_where_def
        split: list.splits)
  done







section \<open>Paging and ordering of a query\<close>

lemma where_loop_grows:
  "where_loop f vs s = Inr s' \<Longrightarrow> \<exists>ps. s' = s\<lparr>wheres := wheres s @ ps\<rparr>"
proof (induction vs arbitrary: s)
  case Nil
  then show ?case by (auto intro: exI[of _ "[]"])
next
  case (Cons v vs)
  from Cons.prems obtain p where rest: "where_loop f vs (add_where p s) = Inr s'"
    by (auto split: sum.splits)
  from Cons.IH[OF rest] obtain ps where "s' = (add_where p s)\<lparr>wheres := wheres (add_where p s) @ ps\<rparr>"
    by blast
  then have "s' = s\<lparr>wheres := wheres s @ (p # ps)\<rparr>" by (simp add: add_where_def)
  then show ?case by blast
qed

lemma add_where_grows: "\<exists>ps. add_where p s = s\<lparr>wheres := wheres s @ ps\<rparr>"
  by (rule exI[of _ "[p]"]) (simp add: add_where_def)

lemma search_key_grows:
  assumes "search_key tbl k raw s = Inr s'"
  shows "\<exists>ps. s' = s\<lparr>wheres := wheres s @ ps\<rparr>"
  using assms key_prefix_cases[of k]
  apply (elim disjE conjE)
  apply (simp_all add: search_key_def where_loop_grows)
  subgoal by (auto split: sum.splits intro: add_where_grows)
  subgoal by (auto split: sum.splits list.splits intro: add_where_grows)
  done

lemma search_sql_grows:
  "search_sql s q tbl = Inr s' \<Longrightarrow> \<exists>ps. s' = s\<lparr>wheres := wheres s @ ps\<rparr>"
proof (induction q arbitrary: s)
  case Nil
  then show ?case by (auto intro: exI[of _ "[]"])
next
  case (Cons kv q)
  obtain k raw where kv: "kv = (k, raw)" by (cases kv)
  from Cons.prems kv obtain s1 where s1: "search_key tbl k raw s = Inr s1"
    and rest: "search_sql s1 q tbl = Inr s'"
    by (auto split: sum.splits)
  from search_key_grows[OF s1] obtain ps where p1: "s1 = s\<lparr>wheres := wheres s @ ps\<rparr>" by blast
  from Cons.IH[OF rest] obtain qs where p2: "s' = s1\<lparr>wheres := wheres s1 @ qs\<rparr>" by blast
  from p1 p2 have "s' = s\<lparr>wheres := wheres s @ (ps @ qs)\<rparr>" by simp
  then show ?case by blast
qed

lemma filtered_frame:
  assumes "filtered s q tbl = Inr s'"
  shows "s' = s\<lparr>wheres := wheres s'\<rparr>"
proof (cases "q = []")
  case True
  with assms show ?thesis by (simp add: filtered_def)
next
  case False
  with assms have "search_sql s q tbl = Inr s'" by (simp add: filtered_def)
  from search_sql_grows[OF this] show ?thesis by auto
qed

lemma filtered_select_table:
  assumes "filtered select_table q tbl = Inr s0"
  shows "limit s0 = None" "offset s0 = None" "order_by s0 = []" "projection s0 = AllColumns"
proof -
  from filtered_frame[OF assms] have eq: "s0 = select_table\<lparr>wheres := wheres s0\<rparr>" .
  show "limit s0 = None" by (subst eq) (simp add: select_table_def)
  show "offset s0 = None" by (subst eq) (simp add: select_table_def)
  show "order_by s0 = []" by (subst eq) (simp add: select_table_def)
  show "projection s0 = AllColumns" by (subst eq) (simp add: select_table_def)
qed

lemma order_desc_frame:
  "order_desc a s = Inr s' \<Longrightarrow> limit s' = limit s \<and> offset s' = offset s \<and> wheres s' = wheres s"
  by (cases a) (auto simp: add_order_def)

lemma order_asc_frame:
  "order_asc a s = Inr s' \<Longrightarrow> limit s' = limit s \<and> offset s' = offset s \<and> wheres s' = wheres s"
  by (cases "(a, s)" rule: order_asc.cases) (auto simp: add_order_def)

lemma apply_sorter_frame:
  assumes "apply_sorter sorter tbl s = Inr s'"
  shows "limit s' = limit s" "offset s' = offset s" "wheres s' = wheres s"
  using assms
  by (auto simp: apply_sorter_def Let_def split: sum.splits if_splits
      dest: order_desc_frame order_asc_frame)


lemma query_stmt_parts:
  assumes "query_stmt cls unscoped query pager sorter tbl = Inr s"
  obtains s0 where "filtered select_table (reformatter cls query unscoped) tbl = Inr s0"
    and "apply_sorter sorter tbl (apply_pager pager s0) = Inr s"
  using assms by (auto simp: query_stmt_def split: sum.splits)

text \<open>
  Claim C2. In the statement that \<open>query\<close> builds, for a pager whose entries are positive
  integers: with \<open>_per_page\<close> set the limit is \<open>_per_page\<close>, and there is no offset when \<open>_page\<close>
  is not set; with \<open>_page\<close> set and \<open>_per_page\<close> not, the offset is \<open>(page - 1) * 30\<close> and the
  limit 30; with both set the offset is \<open>(page - 1) * per_page\<close> and the limit \<open>per_page\<close>;
  without a pager there is neither limit nor offset.
\<close>

theorem query_stmt_pager:
  assumes "query_stmt cls unscoped query pager sorter tbl = Inr s"
  shows "(pager = None \<longrightarrow> limit s = None \<and> offset s = None)
    \<and> (\<forall>pg pp. pager = Some pg \<and> dict_get pg ''_per_page'' = Some pp \<and> 0 < pp
          \<longrightarrow> limit s = Some pp)
    \<and> (\<forall>pg pp. pager = Some pg \<and> dict_get pg ''_per_page'' = Some pp \<and> 0 < pp
            \<and> dict_get pg ''_page'' = None
          \<longrightarrow> offset s = None)
    \<and> (\<forall>pg p. pager = Some pg \<and> dict_get pg ''_per_page'' = None
            \<and> dict_get pg ''_page'' = Some p \<and> 0 < p
          \<longrightarrow> offset s = Some ((p - 1) * 30) \<and> limit s = Some 30)
    \<and> (\<forall>pg p pp. pager = Some pg \<and> dict_get pg ''_per_page'' = Some pp \<and> 0 < pp
            \<and> dict_get pg ''_page'' = Some p \<and> 0 < p
          \<longrightarrow> offset s = Some ((p - 1) * pp) \<and> limit s = Some pp)"
proof -
  from assms obtain s0 where
    f: "filtered select_table (reformatter cls query unscoped) tbl = Inr s0" and
    srt: "apply_sorter sorter tbl (apply_pager pager s0) = Inr s"
    by (rule query_stmt_parts)
  note z = filtered_select_table(1,2)[OF f]
  have l: "limit s = limit (apply_pager pager s0)" and o: "offset s = offset (apply_pager pager s0)"
    using apply_sorter_frame[OF srt] by simp_all
  show ?thesis
    unfolding l o using z
    by (auto simp: apply_pager_def Let_def split: option.splits)
qed

text \<open>No pager, \<open>{_per_page: 10}\<close>, \<open>{_page: 2}\<close> and \<open>{_page: 3, _per_page: 10}\<close>.\<close>

theorem query_stmt_pager_witness:
  "(\<exists>s. query_stmt BaseDao False [] None None (sa_table [''id'']) = Inr s
        \<and> limit s = None \<and> offset s = None)
   \<and> (\<exists>s. query_stmt BaseDao False [] (Some [(''_per_page'', 10)]) None (sa_table [''id'']) = Inr s
        \<and> limit s = Some 10 \<and> offset s = None)
   \<and> (\<exists>s. query_stmt BaseDao False [] (Some [(''_page'', 2)]) None (sa_table [''id'']) = Inr s
        \<and> offset s = Some 30 \<and> limit s = Some 30)
   \<and> (\<exists>s. query_stmt BaseDao False [] (Some [(''_page'', 3), (''_per_page'', 10)]) None
          (sa_table [''id'']) = Inr s
        \<and> offset s = Some 20 \<and> limit s = Some 10)"
proof -
  let ?o = "add_order (ByColumn ''id'' Desc)"
  have q0: "query_stmt BaseDao False [] None None (sa_table [''id'']) = Inr (?o select_table)"
    by code_simp
  have q1: "query_stmt BaseDao False [] (Some [(''_per_page'', 10)]) None (sa_table [''id''])
      = Inr (?o (select_table\<lparr>limit := Some 10\<rparr>))"
    by code_simp
  have q2: "query_stmt BaseDao False [] (Some [(''_page'', 2)]) None (sa_table [''id''])
      = Inr (?o (select_table\<lparr>offset := Some 30, limit := Some 30\<rparr>))"
    by code_simp
  have q3: "query_stmt BaseDao False [] (Some [(''_page'', 3), (''_per_page'', 10)]) None
        (sa_table [''id''])
      = Inr (?o (select_table\<lparr>limit := Some 10, offset := Some 20\<rparr>))"
    by code_simp
  have g1: "dict_get [(''_per_page'', 10::int)] ''_per_page'' = Some 10"
    "dict_get [(''_per_page'', 10::int)] ''_page'' = None"
    by code_simp+
  have g2: "dict_get [(''_page'', 2::int)] ''_per_page'' = None"
    "dict_get [(''_page'', 2::int)] ''_page'' = Some 2"
    by code_simp+
  have g3: "dict_get [(''_page'', 3::int), (''_per_page'', 10)] ''_per_page'' = Some 10"
    "dict_get [(''_page'', 3::int), (''_per_page'', 10)] ''_page'' = Some 3"
    by code_simp+
  from query_stmt_pager[OF q0]
  have "limit (?o select_table) = None \<and> offset (?o select_table) = None"
    by blast
  moreover from query_stmt_pager[OF q1] g1
  have "limit (?o (select_table\<lparr>limit := Some 10\<rparr>)) = Some 10
     \<and> offset (?o (select_table\<lparr>limit := Some 10\<rparr>)) = None"
    by simp
  moreover from query_stmt_pager[OF q2] g2
  have "offset (?o (select_table\<lparr>offset := Some 30, limit := Some 30\<rparr>)) = Some 30
     \<and> limit (?o (select_table\<lparr>offset := Some 30, limit := Some 30\<rparr>)) = Some 30"
    by simp
  moreover from query_stmt_pager[OF q3] g3
  have "offset (?o (select_table\<lparr>limit := Some 10, offset := Some 20\<rparr>)) = Some 20
     \<and> limit (?o (select_table\<lparr>limit := Some 10, offset := Some 20\<rparr>)) = Some 10"
    by simp
  ultimately show ?thesis
    unfolding q0 q1 q2 q3 by simp
qed






section \<open>Empty and missing values in a filter\<close>

lemma search_sql_append:
  "search_sql s (pre @ q) tbl =
     (case search_sql s pre tbl of Inl e \<Rightarrow> Inl e | Inr s' \<Rightarrow> search_sql s' q tbl)"
  by (induction pre arbitrary: s) (auto split: sum.splits)

lemma esayapi_where_append:
  "esayapi_where s (pre @ q) tbl =
     (case esayapi_where s pre tbl of Inl e \<Rightarrow> Inl e | Inr s' \<Rightarrow> esayapi_where s' q tbl)"
  by (induction pre arbitrary: s) (auto split: sum.splits)

lemma comparison_prefix_cases:
  assumes "key_prefix k \<in> set comparison_prefixes"
  shows "key_prefix k = ''_gt_'' \<or> key_prefix k = ''_gte_'' \<or> key_prefix k = ''_lt_''
     \<or> key_prefix k = ''_lte_'' \<or> key_prefix k = ''_like_''"
  using assms by (simp add: comparison_prefixes_def)

lemma search_key_empty:
  assumes "key_prefix k \<in> set comparison_prefixes"
  shows "search_key tbl k (VList []) s = Inr s"
  using comparison_prefix_cases[OF assms] key_prefix_cases[of k]
  apply (elim disjE conjE)
  apply (simp_all add: search_key_def)
  done

lemma esayapi_key_falsy: "\<not> truthy vals \<Longrightarrow> esayapi_key tbl k vals s = Inr s"
  by (simp add: esayapi_key_def)

text \<open>
  Claim C9, as the code has it. In the filter loop of \<open>DaoMetaClass.query\<close> of
  \<open>async_esayapi\<close> a key whose value is \<open>None\<close> or the empty list is skipped: it adds no
  predicate and raises nothing, and the mapping compiles as it does without the key. In
  \<open>search_sql\<close> this holds of a key with one of the prefixes \<open>_gt_\<close>, \<open>_gte_\<close>, \<open>_lt_\<close>, \<open>_lte_\<close>,
  \<open>_like_\<close> and the empty list as value, whether its column exists or not. There the value
  \<open>None\<close> is not skipped: it is wrapped as \<open>[None]\<close>, and a key without prefix, whose column
  the table presents, adds the predicate \<open>column == None\<close>.
\<close>

theorem empty_value_skipped:
  "((vals = VNone \<or> vals = VList []) \<longrightarrow>
      esayapi_key tbl k vals s = Inr s
      \<and> esayapi_where s (pre @ (k, vals) # post) tbl = esayapi_where s (pre @ post) tbl)
   \<and> (key_prefix k \<in> set comparison_prefixes \<longrightarrow>
      search_key tbl k (VList []) s = Inr s
      \<and> search_sql s (pre @ (k, VList []) # post) tbl = search_sql s (pre @ post) tbl)
   \<and> (key_prefix k = [] \<and> has_column tbl k \<longrightarrow>
      search_key tbl k VNone s = Inr (add_where (ColEq k VNone) s))"
proof (intro conjI impI)
  assume "vals = VNone \<or> vals = VList []"
  then have f: "\<not> truthy vals" by auto
  show "esayapi_key tbl k vals s = Inr s" by (rule esayapi_key_falsy[OF f])
  show "esayapi_where s (pre @ (k, vals) # post) tbl = esayapi_where s (pre @ post) tbl"
    by (simp add: esayapi_where_append esayapi_key_falsy[OF f] split: sum.splits)
next
  assume p: "key_prefix k \<in> set comparison_prefixes"
  show "search_key tbl k (VList []) s = Inr s" by (rule search_key_empty[OF p])
  show "search_sql s (pre @ (k, VList []) # post) tbl = search_sql s (pre @ post) tbl"
    by (simp add: search_sql_append search_key_empty[OF p] split: sum.splits)
next
  assume "key_prefix k = [] \<and> has_column tbl k"
  then show "search_key tbl k VNone s = Inr (add_where (ColEq k VNone) s)"
    using search_key_ok[of tbl k VNone s]
    by (simp add: filter_key_ok_def key_column_simps spec_preds_def add_where_def order_prefixes_def)
qed

text \<open>The mappings \<open>{x: None, id: [1]}\<close>, \<open>{_gt_nope: [], id: 1}\<close> and \<open>{deleted_at: None}\<close>.\<close>

theorem empty_value_skipped_witness:
  "esayapi_where select_table [(''x'', VNone), (''id'', VList [VInt 1])] (sa_table [''id''])
     = Inr (select_table\<lparr>wheres := [ColIn ''id'' [VInt 1]]\<rparr>)
   \<and> search_sql select_table [(''_gt_nope'', VList []), (''id'', VInt 1)] (sa_table [''id''])
     = Inr (select_table\<lparr>wheres := [ColEq ''id'' (VInt 1)]\<rparr>)
   \<and> search_key (sa_table [''deleted_at'']) ''deleted_at'' VNone select_table
     = Inr (select_table\<lparr>wheres := [ColEq ''deleted_at'' VNone]\<rparr>)"
proof -
  have n: "VNone = VNone \<or> VNone = VList []" by simp
  have e: "esayapi_where select_table [(''id'', VList [VInt 1])] (sa_table [''id''])
     = Inr (select_table\<lparr>wheres := [ColIn ''id'' [VInt 1]]\<rparr>)"
    by code_simp
  have p: "key_prefix ''_gt_nope'' \<in> set comparison_prefixes" by code_simp
  have q: "key_prefix ''deleted_at'' = [] \<and> has_column (sa_table [''deleted_at'']) ''deleted_at''"
    by code_simp
  have r: "search_sql select_table [(''id'', VInt 1)] (sa_table [''id''])
     = Inr (select_table\<lparr>wheres := [ColEq ''id'' (VInt 1)]\<rparr>)"
    by code_simp
  have a: "add_where (ColEq ''deleted_at'' VNone) select_table
     = select_table\<lparr>wheres := [ColEq ''deleted_at'' VNone]\<rparr>"
    by (simp add: add_where_def select_table_def)
  from empty_value_skipped[of VNone "sa_table [''id'']" "''x''" select_table "[]"
      "[(''id'', VList [VInt 1])]", THEN conjunct1, THEN mp, OF n] e
  have "esayapi_where select_table [(''x'', VNone), (''id'', VList [VInt 1])] (sa_table [''id''])
     = Inr (select_table\<lparr>wheres := [ColIn ''id'' [VInt 1]]\<rparr>)"
    by simp
  moreover
  from empty_value_skipped[of _ "sa_table [''id'']" "''_gt_nope''" select_table "[]"
      "[(''id'', VInt 1)]", THEN conjunct2, THEN conjunct1, THEN mp, OF p] r
  have "search_sql select_table [(''_gt_nope'', VList []), (''id'', VInt 1)] (sa_table [''id''])
     = Inr (select_table\<lparr>wheres := [ColEq ''id'' (VInt 1)]\<rparr>)"
    by simp
  moreover
  from empty_value_skipped[of _ "sa_table [''deleted_at'']" "''deleted_at''" select_table,
      THEN conjunct2, THEN conjunct2, THEN mp, OF q] a
  have "search_key (sa_table [''deleted_at'']) ''deleted_at'' VNone select_table
     = Inr (select_table\<lparr>wheres := [ColEq ''deleted_at'' VNone]\<rparr>)"
    by simp
  ultimately show ?thesis by (intro conjI)
qed

text \<open>
  Claim C9 as stated fails for \<open>search_sql\<close>: the value \<open>None\<close> of \<open>{deleted_at: None}\<close> adds a
  predicate, and the empty list of \<open>{id: []}\<close> raises \<open>IndexError\<close>.
\<close>

theorem empty_value_not_skipped_counterexample:
  "search_sql select_table [(''deleted_at'', VNone)] (sa_table [''deleted_at''])
     = Inr (select_table\<lparr>wheres := [ColEq ''deleted_at'' VNone]\<rparr>)
   \<and> search_sql select_table [(''id'', VList [])] (sa_table [''id'']) = Inl IndexError"
  by code_simp

section \<open>Unknown columns: reads fail, writes skip\<close>

lemma fold_dict_set_fresh:
  "distinct (map fst d) \<Longrightarrow> set (map fst d) \<inter> set (map fst acc) = {} \<Longrightarrow>
   fold (\<lambda>(k, v) nd. dict_set k v nd) d acc = acc @ d"
proof (induction d arbitrary: acc)
  case Nil
  then show ?case by simp
next
  case (Cons kv d)
  obtain k v where kv: "kv = (k, v)" by (cases kv)
  have fresh: "k \<notin> set (map fst acc)" using Cons.prems(2) kv by auto
  have app: "dict_set k v acc = acc @ [(k, v)]" using fresh
    by (induction acc) auto
  have "fold (\<lambda>(k, v) nd. dict_set k v nd) d (acc @ [(k, v)]) = (acc @ [(k, v)]) @ d"
    using Cons.prems kv by (intro Cons.IH) auto
  then show ?case using kv app by simp
qed

lemma dict_set_fresh: "k \<notin> set (map fst d) \<Longrightarrow> dict_set k v d = d @ [(k, v)]"
  by (induction d) auto

lemma copy_dict_distinct: "distinct (dict_keys d) \<Longrightarrow> copy_dict d = d"
  using fold_dict_set_fresh[of d "[]"] by (simp add: copy_dict_def dict_keys_def)

lemma reformatter_distinct:
  "distinct (dict_keys d) \<Longrightarrow> reformatter cls d unscoped = d @ injected cls unscoped d"
  by (cases cls)
     (simp_all add: reformatter_def business_reformatter_def injected_def copy_dict_distinct
        has_key_def dict_keys_def dict_set_fresh)








lemma where_dict_preds_append:
  "where_dict_preds tbl (a @ b) = where_dict_preds tbl a @ where_dict_preds tbl b"
  by (induction a) (auto split: sum.splits)






section \<open>The transaction scope and the controller's error boundary\<close>

lemma with_tx_entered:
  assumes "acquire_raises d = None" and "begin_raises d = None"
  shows "with_tx exit_method d body =
     ([Acquired, Begun] @ fst (exit_method d body),
      (case snd (exit_method d body) of Some e \<Rightarrow> Some e | None \<Rightarrow> body))"
  using assms by (simp add: with_tx_def split: prod.splits)

lemma aexit_committed:
  assumes "commit_raises d = None"
  shows "aexit d body =
     (case close_raises d of None \<Rightarrow> ([Committed, Closed], None)
      | Some e \<Rightarrow> ([Committed, CloseFailed], Some e))"
    and "aexit_esayapi d body = ([Committed], None)"
  using assms by (simp_all add: aexit_def aexit_esayapi_def split: option.splits)

lemma aexit_commit_failed:
  assumes "commit_raises d = Some e" and "is_exception e"
  shows "aexit d body =
     (let (tried, raised) =
            (case rollback_raises d of None \<Rightarrow> ([CommitFailed, RolledBack], Some e)
             | Some e' \<Rightarrow> ([CommitFailed, RollbackFailed], Some e'))
      in case close_raises d of None \<Rightarrow> (tried @ [Closed], raised)
         | Some e'' \<Rightarrow> (tried @ [CloseFailed], Some e''))"
    and "aexit_esayapi d body =
     (case rollback_raises d of None \<Rightarrow> ([CommitFailed, RolledBack], Some e)
      | Some e' \<Rightarrow> ([CommitFailed, RollbackFailed], Some e'))"
  using assms by (simp_all add: aexit_def aexit_esayapi_def)

lemma aexit_commit_interrupted:
  assumes "commit_raises d = Some e" and "\<not> is_exception e"
  shows "aexit d body =
     (case close_raises d of None \<Rightarrow> ([CommitFailed, Closed], Some e)
      | Some e'' \<Rightarrow> ([CommitFailed, CloseFailed], Some e''))"
    and "aexit_esayapi d body = ([CommitFailed], Some e)"
  using assms by (simp_all add: aexit_def aexit_esayapi_def split: option.splits)

lemma aexit_closes_last:
  "last (fst (aexit d body)) = (if close_raises d = None then Closed else CloseFailed)"
  by (simp add: aexit_def split: option.splits prod.splits)

lemma aexit_nonempty: "fst (aexit d body) \<noteq> []"
  by (simp add: aexit_def split: option.splits prod.splits)

text \<open>
  Claim C5, as the code has it. Once the scope is entered, \<open>__aexit__\<close> attempts the commit
  whether the enclosed operations returned or raised, in \<open>async_easyapi\<close> and in
  \<open>async_esayapi\<close> alike. When the commit returns, the transaction is committed and not
  rolled back, and an exception of the enclosed operations is raised again after it. When
  the commit raises an exception that derives from \<open>Exception\<close>, the rollback is called next,
  nothing is committed, and the commit's exception is the one raised if the rollback
  returns, the rollback's own if it does not. When the commit raises an exception that does
  not derive from \<open>Exception\<close>, no rollback is called. In \<open>async_easyapi\<close> the last call on
  every path is the close of the connection, and a close that raises masks the exception
  raised before it.
\<close>

theorem tx_scope_commit_rollback_close:
  assumes "acquire_raises d = None" and "begin_raises d = None"
  shows "(commit_raises d = None \<longrightarrow>
            Committed \<in> set (fst (run_tx d body))
          \<and> RolledBack \<notin> set (fst (run_tx d body))
          \<and> RollbackFailed \<notin> set (fst (run_tx d body))
          \<and> (close_raises d = None \<longrightarrow> snd (run_tx d body) = body)
          \<and> run_tx_esayapi d body = ([Acquired, Begun, Committed], body))
    \<and> (\<forall>e. commit_raises d = Some e \<and> is_exception e \<longrightarrow>
            Committed \<notin> set (fst (run_tx d body))
          \<and> (\<exists>r. r \<in> {RolledBack, RollbackFailed}
                \<and> take 4 (fst (run_tx d body)) = [Acquired, Begun, CommitFailed, r]
                \<and> fst (run_tx_esayapi d body) = [Acquired, Begun, CommitFailed, r])
          \<and> (rollback_raises d = None \<longrightarrow>
                RolledBack \<in> set (fst (run_tx d body))
              \<and> (close_raises d = None \<longrightarrow> snd (run_tx d body) = Some e)
              \<and> run_tx_esayapi d body = ([Acquired, Begun, CommitFailed, RolledBack], Some e))
          \<and> (\<forall>e'. rollback_raises d = Some e' \<longrightarrow>
                (close_raises d = None \<longrightarrow> snd (run_tx d body) = Some e')
              \<and> run_tx_esayapi d body = ([Acquired, Begun, CommitFailed, RollbackFailed], Some e')))
    \<and> (\<forall>e. commit_raises d = Some e \<and> \<not> is_exception e \<longrightarrow>
            Committed \<notin> set (fst (run_tx d body))
          \<and> RolledBack \<notin> set (fst (run_tx d body))
          \<and> RollbackFailed \<notin> set (fst (run_tx d body))
          \<and> (close_raises d = None \<longrightarrow> snd (run_tx d body) = Some e)
          \<and> run_tx_esayapi d body = ([Acquired, Begun, CommitFailed], Some e))
    \<and> last (fst (run_tx d body)) \<in> {Closed, CloseFailed}
    \<and> (close_raises d = None \<longrightarrow> last (fst (run_tx d body)) = Closed)
    \<and> (\<forall>e. close_raises d = Some e \<longrightarrow> snd (run_tx d body) = Some e)"
proof -
  note w = with_tx_entered[OF assms]
  have a: "commit_raises d = None \<longrightarrow>
            Committed \<in> set (fst (run_tx d body))
          \<and> RolledBack \<notin> set (fst (run_tx d body))
          \<and> RollbackFailed \<notin> set (fst (run_tx d body))
          \<and> (close_raises d = None \<longrightarrow> snd (run_tx d body) = body)
          \<and> run_tx_esayapi d body = ([Acquired, Begun, Committed], body)"
    unfolding run_tx_def run_tx_esayapi_def w
    by (auto simp: aexit_committed split: option.splits)
  have b: "\<forall>e. commit_raises d = Some e \<and> is_exception e \<longrightarrow>
            Committed \<notin> set (fst (run_tx d body))
          \<and> (\<exists>r. r \<in> {RolledBack, RollbackFailed}
                \<and> take 4 (fst (run_tx d body)) = [Acquired, Begun, CommitFailed, r]
                \<and> fst (run_tx_esayapi d body) = [Acquired, Begun, CommitFailed, r])
          \<and> (rollback_raises d = None \<longrightarrow>
                RolledBack \<in> set (fst (run_tx d body))
              \<and> (close_raises d = None \<longrightarrow> snd (run_tx d body) = Some e)
              \<and> run_tx_esayapi d body = ([Acquired, Begun, CommitFailed, RolledBack], Some e))
          \<and> (\<forall>e'. rollback_raises d = Some e' \<longrightarrow>
                (close_raises d = None \<longrightarrow> snd (run_tx d body) = Some e')
              \<and> run_tx_esayapi d body = ([Acquired, Begun, CommitFailed, RollbackFailed], Some e'))"
    unfolding run_tx_def run_tx_esayapi_def w
    by (auto simp: aexit_commit_failed split: option.splits)
  have c: "\<forall>e. commit_raises d = Some e \<and> \<not> is_exception e \<longrightarrow>
            Committed \<notin> set (fst (run_tx d body))
          \<and> RolledBack \<notin> set (fst (run_tx d body))
          \<and> RollbackFailed \<notin> set (fst (run_tx d body))
          \<and> (close_raises d = None \<longrightarrow> snd (run_tx d body) = Some e)
          \<and> run_tx_esayapi d body = ([Acquired, Begun, CommitFailed], Some e)"
    unfolding run_tx_def run_tx_esayapi_def w
    by (auto simp: aexit_commit_interrupted split: option.splits)
  have l: "last (fst (run_tx d body)) = (if close_raises d = None then Closed else CloseFailed)"
    unfolding run_tx_def w using aexit_nonempty[of d body] by (simp add: aexit_closes_last)
  have l1: "last (fst (run_tx d body)) \<in> {Closed, CloseFailed}"
    unfolding l by simp
  have l2: "close_raises d = None \<longrightarrow> last (fst (run_tx d body)) = Closed"
    unfolding l by simp
  have m: "\<forall>e. close_raises d = Some e \<longrightarrow> snd (run_tx d body) = Some e"
    unfolding run_tx_def w by (auto simp: aexit_def split: option.splits prod.splits)
  from a b c l1 l2 m show ?thesis by (intro conjI)
qed

text \<open>
  A commit that raises \<open>OperationalError\<close>, one that is cancelled, and a connection on which
  every call returns.
\<close>

theorem tx_scope_commit_rollback_close_witness:
  "run_tx (commit_failing_driver (OperationalError ''gone'')) None
     = ([Acquired, Begun, CommitFailed, RolledBack, Closed], Some (OperationalError ''gone''))
   \<and> run_tx_esayapi (commit_failing_driver (OperationalError ''gone'')) None
     = ([Acquired, Begun, CommitFailed, RolledBack], Some (OperationalError ''gone''))
   \<and> run_tx_esayapi (commit_failing_driver CancelledError) None
     = ([Acquired, Begun, CommitFailed], Some CancelledError)
   \<and> Committed \<in> set (fst (run_tx sound_driver None))
   \<and> last (fst (run_tx sound_driver (Some (OtherError ''boom'')))) = Closed"
proof -
  let ?d = "commit_failing_driver (OperationalError ''gone'')"
  let ?k = "commit_failing_driver CancelledError"
  have a: "acquire_raises ?d = None" and b: "begin_raises ?d = None"
    and c: "commit_raises ?d = Some (OperationalError ''gone'') \<and> is_exception (OperationalError ''gone'')"
    and r: "rollback_raises ?d = None" and cl: "close_raises ?d = None"
    by (simp_all add: commit_failing_driver_def sound_driver_def)
  have k: "acquire_raises ?k = None" "begin_raises ?k = None"
    "commit_raises ?k = Some CancelledError \<and> \<not> is_exception CancelledError"
    by (simp_all add: commit_failing_driver_def sound_driver_def)
  have s: "acquire_raises sound_driver = None" "begin_raises sound_driver = None"
    "commit_raises sound_driver = None" "close_raises sound_driver = None"
    by (simp_all add: sound_driver_def)
  have t: "fst (run_tx ?d None) = [Acquired, Begun, CommitFailed, RolledBack, Closed]"
    by (simp add: run_tx_def with_tx_def aexit_def commit_failing_driver_def sound_driver_def)
  from tx_scope_commit_rollback_close[OF a b, of None] c r cl
  have u: "snd (run_tx ?d None) = Some (OperationalError ''gone'')
      \<and> run_tx_esayapi ?d None
         = ([Acquired, Begun, CommitFailed, RolledBack], Some (OperationalError ''gone''))"
    by simp
  with t have "run_tx ?d None
     = ([Acquired, Begun, CommitFailed, RolledBack, Closed], Some (OperationalError ''gone''))"
    by (simp add: prod_eq_iff)
  moreover from u have "run_tx_esayapi ?d None
     = ([Acquired, Begun, CommitFailed, RolledBack], Some (OperationalError ''gone''))"
    by simp
  moreover from tx_scope_commit_rollback_close[OF k(1,2), of None] k(3)
  have "run_tx_esayapi ?k None = ([Acquired, Begun, CommitFailed], Some CancelledError)"
    by simp
  moreover from tx_scope_commit_rollback_close[OF s(1,2), of None] s(3)
  have "Committed \<in> set (fst (run_tx sound_driver None))" by simp
  moreover from tx_scope_commit_rollback_close[OF s(1,2), of "Some (OtherError ''boom'')"] s(4)
  have "last (fst (run_tx sound_driver (Some (OtherError ''boom'')))) = Closed" by simp
  ultimately show ?thesis by (intro conjI)
qed

text \<open>
  Claim C5 as stated fails: when the enclosed operations raise and the connection works,
  the transaction is committed and never rolled back.
\<close>

theorem tx_scope_commits_on_failure_counterexample:
  "run_tx sound_driver (Some (OtherError ''boom''))
     = ([Acquired, Begun, Committed, Closed], Some (OtherError ''boom''))"
  by (simp add: run_tx_def with_tx_def aexit_def sound_driver_def)

lemma reraise_cases: "reraise e = (if caught e then BusinessError 500 500 (message e) else e)"
  by (cases e) simp_all

lemma reraise_not_caught: "\<not> caught (reraise e)"
  by (cases e) simp_all

lemma validation_error_not_caught: "validation_error validator data = Some e \<Longrightarrow> \<not> caught e"
  by (auto simp: validation_error_def split: option.splits)

text \<open>
  Claim C6, as the code has it. An \<open>OperationalError\<close>, \<open>IntegrityError\<close> or \<open>DataError\<close> raised
  by the dao during \<open>get\<close>, \<open>query\<close>, \<open>insert\<close>, \<open>update\<close> or \<open>delete\<close> of the controller is raised
  again as \<open>BusinessError(code=500, http_code=500, err_info=str(e))\<close>, and no controller
  operation ever raises one of these three classes. Every other exception raised by the
  dao passes through the controller unchanged.
\<close>

theorem controller_error_boundary:
  "(ops_query dao [(''id'', ident)] None None = Inl e \<longrightarrow>
      controller_get dao ident
        = Inl (if caught e then BusinessError 500 500 (message e) else e))
   \<and> (gather second_first (ops_query dao query pager sorter) (ops_count dao query) = Inl e \<longrightarrow>
      controller_query dao second_first query pager sorter
        = Inl (if caught e then BusinessError 500 500 (message e) else e))
   \<and> (validation_error validator data = None \<and> ops_insert dao data = Inl e \<longrightarrow>
      controller_insert dao validator data
        = Inl (if caught e then BusinessError 500 500 (message e) else e))
   \<and> (validation_error validator data = None \<and> ops_update dao [(''id'', ident)] data = Inl e \<longrightarrow>
      controller_update dao validator ident data
        = Inl (if caught e then BusinessError 500 500 (message e) else e))
   \<and> (ops_delete dao [(''id'', ident)] = Inl e \<longrightarrow>
      controller_delete dao ident
        = Inl (if caught e then BusinessError 500 500 (message e) else e))
   \<and> (caught e \<longrightarrow>
        controller_get dao ident \<noteq> Inl e
      \<and> controller_query dao second_first query pager sorter \<noteq> Inl e
      \<and> controller_insert dao validator data \<noteq> Inl e
      \<and> controller_update dao validator ident data \<noteq> Inl e
      \<and> controller_delete dao ident \<noteq> Inl e)"
proof -
  have a: "ops_query dao [(''id'', ident)] None None = Inl e \<longrightarrow>
      controller_get dao ident
        = Inl (if caught e then BusinessError 500 500 (message e) else e)"
    by (simp add: controller_get_def reraise_cases)
  have b: "gather second_first (ops_query dao query pager sorter) (ops_count dao query) = Inl e \<longrightarrow>
      controller_query dao second_first query pager sorter
        = Inl (if caught e then BusinessError 500 500 (message e) else e)"
    by (simp add: controller_query_def reraise_cases)
  have c: "validation_error validator data = None \<and> ops_insert dao data = Inl e \<longrightarrow>
      controller_insert dao validator data
        = Inl (if caught e then BusinessError 500 500 (message e) else e)"
    by (simp add: controller_insert_def reraise_cases)
  have d: "validation_error validator data = None \<and> ops_update dao [(''id'', ident)] data = Inl e \<longrightarrow>
      controller_update dao validator ident data
        = Inl (if caught e then BusinessError 500 500 (message e) else e)"
    by (simp add: controller_update_def reraise_cases)
  have f: "ops_delete dao [(''id'', ident)] = Inl e \<longrightarrow>
      controller_delete dao ident
        = Inl (if caught e then BusinessError 500 500 (message e) else e)"
    by (simp add: controller_delete_def reraise_cases)
  have g: "caught e \<longrightarrow>
        controller_get dao ident \<noteq> Inl e
      \<and> controller_query dao second_first query pager sorter \<noteq> Inl e
      \<and> controller_insert dao validator data \<noteq> Inl e
      \<and> controller_update dao validator ident data \<noteq> Inl e
      \<and> controller_delete dao ident \<noteq> Inl e"
  proof
    assume ce: "caught e"
    have ne: "\<And>x. reraise x \<noteq> e" using reraise_not_caught ce by metis
    have nv: "\<And>x. validation_error validator data = Some x \<Longrightarrow> x \<noteq> e"
      using validation_error_not_caught ce by blast
    show "controller_get dao ident \<noteq> Inl e
      \<and> controller_query dao second_first query pager sorter \<noteq> Inl e
      \<and> controller_insert dao validator data \<noteq> Inl e
      \<and> controller_update dao validator ident data \<noteq> Inl e
      \<and> controller_delete dao ident \<noteq> Inl e"
      by (auto simp: controller_get_def controller_query_def controller_insert_def
          controller_update_def controller_delete_def ne
          split: sum.splits list.splits option.splits dest: nv)
  qed
  from a b c d f g show ?thesis by (intro conjI)
qed

text \<open>
  A dao whose operations raise \<open>OperationalError('gone')\<close>, and one whose operations raise
  \<open>KeyError\<close>, which is none of the three classes.
\<close>

theorem controller_error_boundary_witness:
  "controller_get (failing_dao (OperationalError ''gone'')) (VInt 1)
     = Inl (BusinessError 500 500 ''gone'')
   \<and> controller_delete (failing_dao (OperationalError ''gone'')) (VInt 1)
     = Inl (BusinessError 500 500 ''gone'')
   \<and> controller_insert (failing_dao (OperationalError ''gone'')) None [(''name'', VStr ''a'')]
     = Inl (BusinessError 500 500 ''gone'')
   \<and> controller_get (failing_dao (OperationalError ''gone'')) (VInt 1)
     \<noteq> Inl (OperationalError ''gone'')
   \<and> controller_delete (failing_dao (OtherError ''KeyError'')) (VInt 1)
     = Inl (OtherError ''KeyError'')"
proof -
  have c: "caught (OperationalError ''gone'')" by simp
  have n: "\<not> caught (OtherError ''KeyError'')" by simp
  have q: "ops_query (failing_dao (OperationalError ''gone'')) [(''id'', VInt 1)] None None
      = Inl (OperationalError ''gone'')"
    and dl: "ops_delete (failing_dao (OperationalError ''gone'')) [(''id'', VInt 1)]
      = Inl (OperationalError ''gone'')"
    and i: "ops_insert (failing_dao (OperationalError ''gone'')) [(''name'', VStr ''a'')]
      = Inl (OperationalError ''gone'')"
    and v: "validation_error None [(''name'', VStr ''a'')] = None"
    and o: "ops_delete (failing_dao (OtherError ''KeyError'')) [(''id'', VInt 1)]
      = Inl (OtherError ''KeyError'')"
    by (simp_all add: failing_dao_def validation_error_def)
  have m: "message (OperationalError ''gone'') = ''gone''" by simp
  from controller_error_boundary[of "failing_dao (OperationalError ''gone'')" "VInt 1"
      "OperationalError ''gone''" False "[]" None None None "[(''name'', VStr ''a'')]"] q dl i v c
  have "controller_get (failing_dao (OperationalError ''gone'')) (VInt 1)
     = Inl (BusinessError 500 500 ''gone'')
   \<and> controller_delete (failing_dao (OperationalError ''gone'')) (VInt 1)
     = Inl (BusinessError 500 500 ''gone'')
   \<and> controller_insert (failing_dao (OperationalError ''gone'')) None [(''name'', VStr ''a'')]
     = Inl (BusinessError 500 500 ''gone'')
   \<and> controller_get (failing_dao (OperationalError ''gone'')) (VInt 1)
     \<noteq> Inl (OperationalError ''gone'')"
    by (simp only: m if_True simp_thms) simp
  moreover
  from controller_error_boundary[of "failing_dao (OtherError ''KeyError'')" "VInt 1"
      "OtherError ''KeyError''"] o n
  have "controller_delete (failing_dao (OtherError ''KeyError'')) (VInt 1)
     = Inl (OtherError ''KeyError'')"
    by (simp only: if_False simp_thms)
  ultimately show ?thesis by (intro conjI) simp_all
qed

text \<open>
  Claim C6 as stated fails: a \<open>ProgrammingError\<close> of the driver is in none of the three
  caught classes and reaches the caller of the controller as it is.
\<close>

theorem controller_passes_programming_error_counterexample:
  "controller_get (failing_dao (ProgrammingError ''syntax'')) (VInt 1)
     = Inl (ProgrammingError ''syntax'')"
  by (simp add: controller_get_def failing_dao_def)

section \<open>The round trip of a record through the transcoders\<close>

lemma json_value_safe: "json_safe v \<Longrightarrow> json_value v = v"
proof (induction v rule: json_value.induct)
  case (2 vs)
  then have "map json_value vs = vs"
    by (intro map_idI) (auto simp: list_all_iff)
  then show ?case by simp
qed simp_all

lemma type_to_json_safe: "json_safe_record d \<Longrightarrow> type_to_json d = d"
  unfolding type_to_json_def json_safe_record_def
  by (intro map_idI) (auto simp: list_all_iff json_value_safe)

lemma json_value_idem: "json_value (json_value v) = json_value v"
  by (induction v rule: json_value.induct) simp_all

lemma fold_strip_fresh:
  "distinct (map fst d) \<Longrightarrow> set (map fst d) \<inter> set (map fst acc) = {} \<Longrightarrow>
   fold (\<lambda>(k, v) nd. if k \<notin> set ignore_columns then dict_set k v nd else nd) d acc
     = acc @ filter (\<lambda>(k, v). k \<notin> set ignore_columns) d"
proof (induction d arbitrary: acc)
  case Nil
  then show ?case by simp
next
  case (Cons kv d)
  obtain k v where kv: "kv = (k, v)" by (cases kv)
  have fresh: "k \<notin> set (map fst acc)" using Cons.prems(2) kv by auto
  show ?case
  proof (cases "k \<in> set ignore_columns")
    case True
    have "fold (\<lambda>(k, v) nd. if k \<notin> set ignore_columns then dict_set k v nd else nd) d acc
      = acc @ filter (\<lambda>(k, v). k \<notin> set ignore_columns) d"
      using Cons.prems kv by (intro Cons.IH) auto
    with True kv show ?thesis by simp
  next
    case False
    have "fold (\<lambda>(k, v) nd. if k \<notin> set ignore_columns then dict_set k v nd else nd) d (acc @ [(k, v)])
      = (acc @ [(k, v)]) @ filter (\<lambda>(k, v). k \<notin> set ignore_columns) d"
      using Cons.prems kv by (intro Cons.IH) auto
    with False kv dict_set_fresh[OF fresh] show ?thesis by simp
  qed
qed

lemma strip_no_audit:
  assumes "distinct (dict_keys d)" and "no_audit_columns d"
  shows "fold (\<lambda>(k, v) nd. if k \<notin> set ignore_columns then dict_set k v nd else nd)
           (d @ [(''deleted_at'', VNone)]) [] = d"
    and "fold (\<lambda>(k, v) nd. if k \<notin> set ignore_columns then dict_set k v nd else nd) d [] = d"
proof -
  have keep: "filter (\<lambda>(k, v). k \<notin> set ignore_columns) d = d"
    using assms(2)
    by (intro filter_True) (force simp: no_audit_columns_def has_key_def dict_keys_def list_all_iff)
  have nd: "''deleted_at'' \<notin> set (map fst d)"
    using assms(2) by (simp add: no_audit_columns_def has_key_def dict_keys_def ignore_columns_def)
  have dd: "distinct (map fst (d @ [(''deleted_at'', VNone)]))"
    using assms(1) nd by (simp add: dict_keys_def)
  show "fold (\<lambda>(k, v) nd. if k \<notin> set ignore_columns then dict_set k v nd else nd)
           (d @ [(''deleted_at'', VNone)]) [] = d"
    using fold_strip_fresh[OF dd, of "[]"] keep by (simp add: ignore_columns_def)
  show "fold (\<lambda>(k, v) nd. if k \<notin> set ignore_columns then dict_set k v nd else nd) d [] = d"
    using fold_strip_fresh[of d "[]"] assms(1) keep by (simp add: dict_keys_def)
qed

lemma business_reformatter_no_audit:
  assumes "distinct (dict_keys d)" and "no_audit_columns d"
  shows "business_reformatter d unscoped = (if unscoped then d else d @ [(''deleted_at'', VNone)])"
proof -
  have nd: "\<not> has_key d ''deleted_at''"
    using assms(2) by (simp add: no_audit_columns_def ignore_columns_def)
  then show ?thesis
    using reformatter_distinct[OF assms(1), of BusinessBaseDao unscoped]
    by (simp add: reformatter_def injected_def)
qed

lemma business_reformatter_sync_no_audit:
  assumes "distinct (dict_keys d)" and "no_audit_columns d"
  shows "business_reformatter_sync d = d \<or> business_reformatter_sync d = d @ [(''deleted_at'', VNone)]"
proof -
  have nd: "''deleted_at'' \<notin> set (map fst d)"
    using assms(2) by (simp add: no_audit_columns_def has_key_def dict_keys_def ignore_columns_def)
  show ?thesis
    by (simp add: business_reformatter_sync_def Let_def copy_dict_distinct[OF assms(1)]
        dict_set_fresh[OF nd])
qed

text \<open>
  Claim C10, as the code has it. For a record without the audit columns, the reformatter of
  \<open>BusinessBaseDao\<close> followed by the formatter of \<open>easyapi/dao.py\<close>, which drops the audit
  columns, gives \<open>type_to_json\<close> of the record: the record itself when its values are
  JSON-safe already.
\<close>

theorem round_trip_without_audit_columns:
  assumes "distinct (dict_keys record)" and "no_audit_columns record"
  shows "business_formatter_sync (business_reformatter record unscoped) = type_to_json record
    \<and> business_formatter_sync (business_reformatter_sync record) = type_to_json record
    \<and> (json_safe_record record \<longrightarrow>
          business_formatter_sync (business_reformatter record unscoped) = record
        \<and> business_formatter_sync (business_reformatter_sync record) = record)"
proof -
  note s = strip_no_audit[OF assms]
  have a: "business_formatter_sync (business_reformatter record unscoped) = type_to_json record"
  proof (cases unscoped)
    case True
    then have "business_reformatter record unscoped = record"
      by (simp add: business_reformatter_no_audit[OF assms])
    then show ?thesis unfolding business_formatter_sync_def by (simp only: s(2))
  next
    case False
    then have "business_reformatter record unscoped = record @ [(''deleted_at'', VNone)]"
      by (simp add: business_reformatter_no_audit[OF assms])
    then show ?thesis unfolding business_formatter_sync_def by (simp only: s(1))
  qed
  have b: "business_formatter_sync (business_reformatter_sync record) = type_to_json record"
    using business_reformatter_sync_no_audit[OF assms]
    unfolding business_formatter_sync_def
    by (elim disjE) (simp_all only: s)
  from a b show ?thesis by (simp add: type_to_json_safe)
qed

text \<open>The record \<open>{name: 'a', age: 3}\<close>.\<close>

theorem round_trip_without_audit_columns_witness:
  "business_formatter_sync (business_reformatter [(''name'', VStr ''a''), (''age'', VInt 3)] False)
     = [(''name'', VStr ''a''), (''age'', VInt 3)]"
proof -
  have d: "distinct (dict_keys [(''name'', VStr ''a''), (''age'', VInt 3)])" by code_simp
  have n: "no_audit_columns [(''name'', VStr ''a''), (''age'', VInt 3)]" by code_simp
  have j: "json_safe_record [(''name'', VStr ''a''), (''age'', VInt 3)]" by code_simp
  from round_trip_without_audit_columns[OF d n, of False, THEN conjunct2, THEN conjunct2, THEN mp, OF j]
  show ?thesis by (rule conjunct1)
qed

text \<open>
  Claim C10 as stated fails: a timestamp in a column that is no audit column comes back as
  its ISO-8601 text, and the formatter of \<open>async_easyapi/dao.py\<close>, which drops nothing,
  returns the \<open>deleted_at\<close> that the reformatter added.
\<close>

theorem round_trip_changes_record_counterexample:
  "no_audit_columns [(''born'', VDatetime ''2020-01-01T00:00:00'')]
   \<and> business_formatter_sync
        (business_reformatter [(''born'', VDatetime ''2020-01-01T00:00:00'')] False)
       = [(''born'', VStr ''2020-01-01T00:00:00'')]
   \<and> business_formatter_sync
        (business_reformatter [(''born'', VDatetime ''2020-01-01T00:00:00'')] False)
       \<noteq> [(''born'', VDatetime ''2020-01-01T00:00:00'')]
   \<and> no_audit_columns [(''name'', VStr ''a'')]
   \<and> business_formatter (business_reformatter [(''name'', VStr ''a'')] False)
       = [(''name'', VStr ''a''), (''deleted_at'', VNone)]
   \<and> business_formatter (business_reformatter [(''name'', VStr ''a'')] False)
       \<noteq> [(''name'', VStr ''a'')]"
  by code_simp

section \<open>Soft delete\<close>

lemma map_of_dict_set: "map_of (dict_set k v d) = (map_of d)(k \<mapsto> v)"
  by (induction d) (auto simp: fun_upd_twist)

lemma keys_dict_set: "set (map fst (dict_set k v d)) = insert k (set (map fst d))"
  by (induction k v d rule: dict_set.induct) (simp_all add: insert_commute)

lemma distinct_dict_set: "distinct (map fst d) \<Longrightarrow> distinct (map fst (dict_set k v d))"
proof (induction d)
  case Nil
  then show ?case by simp
next
  case (Cons kv d)
  obtain k' v' where kv: "kv = (k', v')" by (cases kv)
  from Cons.prems kv have k': "k' \<notin> set (map fst d)" and dd: "distinct (map fst d)" by auto
  show ?case
  proof (cases "k = k'")
    case True
    with Cons.prems kv show ?thesis by simp
  next
    case False
    have "k' \<notin> set (map fst (dict_set k v d))"
      unfolding keys_dict_set using k' False by simp
    with Cons.IH[OF dd] False kv show ?thesis by simp
  qed
qed

lemma set_values_lookup:
  "distinct (map fst vals) \<Longrightarrow>
   set_values vals r c = (case map_of vals c of None \<Rightarrow> r c | Some v \<Rightarrow> v)"
  unfolding set_values_def
proof (induction vals arbitrary: r)
  case Nil
  then show ?case by simp
next
  case (Cons kv vals)
  obtain k v where kv: "kv = (k, v)" by (cases kv)
  from Cons.prems kv have nk: "map_of vals k = None" and d: "distinct (map fst vals)"
    by (auto simp: map_of_eq_None_iff)
  show ?case
    using Cons.IH[OF d, of "r(k := v)"] kv nk
    by (cases "c = k") (simp_all split: option.splits)
qed

lemma getattr_c_found:
  "getattr_c tbl name = Inr a \<Longrightarrow> name \<in> set (columns tbl) \<or> own_attr tbl name"
  by (auto simp: getattr_c_def own_attr_def map_of_eq_None_iff[symmetric]
      split: option.splits if_splits)

lemma mem_where_dict_preds:
  "p \<in> set (where_dict_preds tbl d) \<Longrightarrow>
   \<exists>k v a. (k, v) \<in> set d \<and> getattr_c tbl k = Inr a \<and> p = eq_pred a v"
proof (induction d)
  case Nil
  then show ?case by simp
next
  case (Cons kv d)
  obtain k v where kv: "kv = (k, v)" by (cases kv)
  show ?case
  proof (cases "getattr_c tbl k")
    case (Inl e)
    with Cons.prems kv have "p \<in> set (where_dict_preds tbl d)" by simp
    from Cons.IH[OF this] show ?thesis by auto
  next
    case (Inr a)
    with Cons.prems kv have "p = eq_pred a v \<or> p \<in> set (where_dict_preds tbl d)" by auto
    then show ?thesis
    proof
      assume "p = eq_pred a v"
      with Inr kv show ?thesis by auto
    next
      assume "p \<in> set (where_dict_preds tbl d)"
      from Cons.IH[OF this] show ?thesis by auto
    qed
  qed
qed

lemma matches_subset:
  "set ws \<subseteq> set ps \<Longrightarrow> matches eng ps r \<Longrightarrow> matches eng ws r"
  by (auto simp: matches_def list_all_iff)

lemma values_of_not_list: "\<not> is_list v \<Longrightarrow> values_of v = [v]"
  by (cases v) simp_all

lemma search_key_plain:
  assumes "key_prefix k = []" and "\<not> is_list v" and "getattr_c tbl k = Inr a"
  shows "search_key tbl k v s = Inr (add_where (eq_pred a v) s)"
  using key_prefix_cases[of k] assms
  apply (elim disjE conjE)
  apply (simp_all add: search_key_def values_of_not_list)
  done

lemma search_sql_keeps:
  assumes "search_sql s q tbl = Inr s'"
  shows "set (wheres s) \<subseteq> set (wheres s')"
proof -
  from search_sql_grows[OF assms] obtain ps where "s' = s\<lparr>wheres := wheres s @ ps\<rparr>" by blast
  then show ?thesis by simp
qed

lemma search_sql_plain_mem:
  "search_sql s q tbl = Inr s' \<Longrightarrow> (k, v) \<in> set q \<Longrightarrow> key_prefix k = [] \<Longrightarrow> \<not> is_list v \<Longrightarrow>
   getattr_c tbl k = Inr a \<Longrightarrow> eq_pred a v \<in> set (wheres s')"
proof (induction q arbitrary: s)
  case Nil
  then show ?case by simp
next
  case (Cons kv q)
  obtain k' raw where kv: "kv = (k', raw)" by (cases kv)
  from Cons.prems(1) kv obtain s1 where s1: "search_key tbl k' raw s = Inr s1"
    and rest: "search_sql s1 q tbl = Inr s'"
    by (auto split: sum.splits)
  from Cons.prems(2) kv have "(k, v) = (k', raw) \<or> (k, v) \<in> set q" by auto
  then show ?case
  proof
    assume "(k, v) = (k', raw)"
    then have "search_key tbl k v s = Inr s1" using s1 by simp
    with search_key_plain[OF Cons.prems(3,4,5), of s]
    have "s1 = add_where (eq_pred a v) s" by simp
    then have "eq_pred a v \<in> set (wheres s1)" by (simp add: add_where_def)
    with search_sql_keeps[OF rest] show ?thesis by blast
  next
    assume "(k, v) \<in> set q"
    from Cons.IH[OF rest this Cons.prems(3,4,5)] show ?thesis .
  qed
qed

lemma key_prefix_deleted_at: "key_prefix ''deleted_at'' = []"
  by code_simp

lemma business_delete_stmt_form:
  "business_delete_stmt where_dict unscoped modify_by now tbl =
     Update (where_dict_preds tbl (reformatter BusinessBaseDao where_dict unscoped))
       [(''deleted_at'', VDatetime now), (''updated_by'', VStr modify_by)]"
proof -
  have d: "distinct (dict_keys [(''deleted_at'', VDatetime now), (''updated_by'', VStr modify_by)])"
    by (simp add: dict_keys_def)
  have h: "has_key [(''deleted_at'', VDatetime now), (''updated_by'', VStr modify_by)] ''deleted_at''"
    by (simp add: has_key_def dict_keys_def)
  have "reformatter BusinessBaseDao [(''deleted_at'', VDatetime now), (''updated_by'', VStr modify_by)] unscoped
      = [(''deleted_at'', VDatetime now), (''updated_by'', VStr modify_by)]"
    using reformatter_distinct[OF d, of BusinessBaseDao unscoped] h by (simp add: injected_def)
  then show ?thesis
    by (simp add: business_delete_stmt_def update_stmt_def Let_def)
qed

lemma soft_delete_hides:
  assumes dist: "distinct (dict_keys where_dict)"
    and c1: "has_column tbl ''deleted_at''" and c2: "''updated_by'' \<in> set (columns tbl)"
    and nd: "\<not> has_key where_dict ''deleted_at''"
    and plain: "\<forall>(k, v) \<in> set where_dict.
        k \<in> set (columns tbl) \<or> own_attr tbl k \<longrightarrow> key_prefix k = [] \<and> \<not> is_list v"
    and comp: "\<not> isl (get_stmt BusinessBaseDao False where_dict tbl)"
  shows "\<exists>db'. business_delete eng tbl dflt where_dict unscoped modify_by now db = Inr db'
          \<and> dao_get eng BusinessBaseDao False where_dict tbl db' = Inr None"
proof -
  let ?W = "where_dict_preds tbl (reformatter BusinessBaseDao where_dict unscoped)"
  let ?vals = "[(''deleted_at'', VDatetime now), (''updated_by'', VStr modify_by)]"
  let ?db' = "map (\<lambda>r. if matches eng ?W r then set_values ?vals r else r) db"
  have dc: "''deleted_at'' \<in> set (columns tbl)" using c1 by (simp add: has_column_def)
  have uc: "unknown_column tbl ?vals = None"
    using dc c2 by (simp add: unknown_column_def dict_keys_def)
  have del: "business_delete eng tbl dflt where_dict unscoped modify_by now db = Inr ?db'"
    by (simp add: business_delete_def business_delete_stmt_form uc)
  from comp obtain s where s: "get_stmt BusinessBaseDao False where_dict tbl = Inr s"
    by (cases "get_stmt BusinessBaseDao False where_dict tbl") auto
  have rf: "reformatter BusinessBaseDao where_dict False = where_dict @ [(''deleted_at'', VNone)]"
    using reformatter_distinct[OF dist, of BusinessBaseDao False] nd by (simp add: injected_def)
  from s have ss: "search_sql select_table (where_dict @ [(''deleted_at'', VNone)]) tbl = Inr s"
    by (simp add: get_stmt_def rf filtered_def)
  note gd = getattr_c_column[OF c1]
  have "eq_pred (Column ''deleted_at'') VNone \<in> set (wheres s)"
    by (rule search_sql_plain_mem[OF ss _ key_prefix_deleted_at _ gd]) simp_all
  then have da: "ColEq ''deleted_at'' VNone \<in> set (wheres s)" by simp
  have sub: "set ?W \<subseteq> set (wheres s)"
  proof
    fix p assume "p \<in> set ?W"
    from mem_where_dict_preds[OF this] obtain k v a where p: "p = eq_pred a v"
      and ga: "getattr_c tbl k = Inr a"
      and kv: "(k, v) \<in> set (reformatter BusinessBaseDao where_dict unscoped)"
      by blast
    from kv have "(k, v) \<in> set where_dict \<or> (k, v) = (''deleted_at'', VNone)"
      using reformatter_distinct[OF dist, of BusinessBaseDao unscoped]
      by (auto simp: injected_def split: if_splits)
    then show "p \<in> set (wheres s)"
    proof
      assume m: "(k, v) \<in> set where_dict"
      with plain getattr_c_found[OF ga] have pl: "key_prefix k = []" "\<not> is_list v" by auto
      from m have m': "(k, v) \<in> set (where_dict @ [(''deleted_at'', VNone)])" by simp
      from search_sql_plain_mem[OF ss m' pl ga] show ?thesis unfolding p .
    next
      assume "(k, v) = (''deleted_at'', VNone)"
      with ga gd have "a = Column ''deleted_at''" "v = VNone" by simp_all
      with da p show ?thesis by simp
    qed
  qed
  have none: "\<not> matches eng (wheres s) r'" if "r' \<in> set ?db'" for r'
  proof -
    from that obtain r where r: "r \<in> set db"
      and r': "r' = (if matches eng ?W r then set_values ?vals r else r)"
      by auto
    show ?thesis
    proof (cases "matches eng ?W r")
      case True
      then have "r' ''deleted_at'' = VDatetime now" using r' by (simp add: set_values_def)
      then have "\<not> holds eng r' (ColEq ''deleted_at'' VNone)" by simp
      with da show ?thesis unfolding matches_def list_all_iff by blast
    next
      case False
      then have "r' = r" using r' by simp
      with False matches_subset[OF sub] show ?thesis by blast
    qed
  qed
  then have "fetch_first eng s ?db' = None"
    unfolding fetch_first_def by (simp only: find_None_iff) blast
  then have "dao_get eng BusinessBaseDao False where_dict tbl ?db' = Inr None"
    by (simp add: dao_get_def s)
  with del show ?thesis by blast
qed

text \<open>
  Claim C4, as the code has it. For every where-condition, business \<open>delete\<close> builds an
  \<open>UPDATE\<close> that sets \<open>deleted_at\<close> to the current time and \<open>updated_by\<close> to the caller, never
  a \<open>DELETE\<close>. When the table has the columns \<open>deleted_at\<close> and \<open>updated_by\<close>, the
  where-condition does not name \<open>deleted_at\<close>, each of its keys that the column collection
  resolves (a column, or an attribute of the collection object) is a key without prefix
  with a value that is not a list, and business \<open>get\<close> compiles the same filter, the update
  succeeds and a business \<open>get\<close> with that filter and no \<open>unscoped\<close> flag then returns \<open>None\<close>.
\<close>

theorem business_delete_is_soft:
  "(business_delete_stmt where_dict unscoped modify_by now tbl =
      Update (where_dict_preds tbl (reformatter BusinessBaseDao where_dict unscoped))
        [(''deleted_at'', VDatetime now), (''updated_by'', VStr modify_by)])
   \<and> (distinct (dict_keys where_dict)
        \<and> has_column tbl ''deleted_at'' \<and> ''updated_by'' \<in> set (columns tbl)
        \<and> \<not> has_key where_dict ''deleted_at''
        \<and> (\<forall>(k, v) \<in> set where_dict.
              k \<in> set (columns tbl) \<or> own_attr tbl k \<longrightarrow> key_prefix k = [] \<and> \<not> is_list v)
        \<and> \<not> isl (get_stmt BusinessBaseDao False where_dict tbl)
      \<longrightarrow> (\<exists>db'. business_delete eng tbl dflt where_dict unscoped modify_by now db = Inr db'
              \<and> dao_get eng BusinessBaseDao False where_dict tbl db' = Inr None))"
  using business_delete_stmt_form soft_delete_hides by blast

text \<open>
  The where-condition \<open>{id: 1}\<close> on a table that holds the row with that \<open>id\<close>: before the
  delete \<open>get\<close> returns the row, after it \<open>None\<close>.
\<close>

theorem business_delete_is_soft_witness:
  "dao_get plain_engine BusinessBaseDao False [(''id'', VInt 1)]
     (sa_table [''id'', ''name'', ''deleted_at'', ''updated_by''])
     [row_of [(''id'', VInt 1), (''name'', VStr ''a'')]]
     = Inr (Some [(''id'', VInt 1), (''name'', VStr ''a''), (''deleted_at'', VNone),
                  (''updated_by'', VNone)])
   \<and> (\<exists>db'. business_delete plain_engine (sa_table [''id'', ''name'', ''deleted_at'', ''updated_by''])
          null_row [(''id'', VInt 1)] False ''bob'' ''2024-01-01T00:00:00''
          [row_of [(''id'', VInt 1), (''name'', VStr ''a'')]] = Inr db'
        \<and> dao_get plain_engine BusinessBaseDao False [(''id'', VInt 1)]
          (sa_table [''id'', ''name'', ''deleted_at'', ''updated_by'']) db' = Inr None)"
proof -
  let ?t = "sa_table [''id'', ''name'', ''deleted_at'', ''updated_by'']"
  have before: "dao_get plain_engine BusinessBaseDao False [(''id'', VInt 1)] ?t
     [row_of [(''id'', VInt 1), (''name'', VStr ''a'')]]
     = Inr (Some [(''id'', VInt 1), (''name'', VStr ''a''), (''deleted_at'', VNone),
                  (''updated_by'', VNone)])"
    by code_simp
  have h: "distinct (dict_keys [(''id'', VInt 1)])
        \<and> has_column ?t ''deleted_at'' \<and> ''updated_by'' \<in> set (columns ?t)
        \<and> \<not> has_key [(''id'', VInt 1)] ''deleted_at''
        \<and> (\<forall>(k, v) \<in> set [(''id'', VInt 1)].
              k \<in> set (columns ?t) \<or> own_attr ?t k \<longrightarrow> key_prefix k = [] \<and> \<not> is_list v)
        \<and> \<not> isl (get_stmt BusinessBaseDao False [(''id'', VInt 1)] ?t)"
    by code_simp
  from business_delete_is_soft[of "[(''id'', VInt 1)]" False "''bob''" "''2024-01-01T00:00:00''"
      ?t plain_engine null_row
      "[row_of [(''id'', VInt 1), (''name'', VStr ''a'')]]", THEN conjunct2, THEN mp, OF h]
    before
  show ?thesis by (rule conjI[rotated])
qed

text \<open>
  Claim C4 as stated fails: with the where-condition \<open>{nope: 1}\<close>, whose key is no column,
  business \<open>delete\<close> executes its update, and the business \<open>get\<close> that follows does not
  return \<open>None\<close> but raises.
\<close>

theorem business_get_after_delete_raises_counterexample:
  "\<not> isl (business_delete plain_engine (sa_table [''id'', ''name'', ''deleted_at'', ''updated_by''])
          null_row [(''nope'', VInt 1)] False ''bob'' ''2024-01-01T00:00:00''
          [row_of [(''id'', VInt 1), (''name'', VStr ''a'')]])
   \<and> dao_get plain_engine BusinessBaseDao False [(''nope'', VInt 1)]
        (sa_table [''id'', ''name'', ''deleted_at'', ''updated_by''])
        (projr (business_delete plain_engine (sa_table [''id'', ''name'', ''deleted_at'', ''updated_by''])
          null_row [(''nope'', VInt 1)] False ''bob'' ''2024-01-01T00:00:00''
          [row_of [(''id'', VInt 1), (''name'', VStr ''a'')]]))
      = Inl (AttributeError ''nope'')"
  by code_simp

section \<open>Audit stamps: the values written\<close>

lemma distinct_reformatted:
  assumes "distinct (dict_keys d)"
  shows "distinct (map fst (reformatter cls d unscoped))"
  using assms reformatter_distinct[OF assms, of cls unscoped]
  by (auto simp: injected_def has_key_def dict_keys_def)

lemma keys_reformatted:
  assumes "distinct (dict_keys d)"
  shows "set (map fst (reformatter cls d unscoped)) \<subseteq> insert ''deleted_at'' (set (map fst d))"
  using reformatter_distinct[OF assms, of cls unscoped]
  by (auto simp: injected_def)

lemma map_of_reformatted:
  assumes "distinct (dict_keys d)"
  shows "map_of (reformatter BusinessBaseDao d unscoped) c =
     (if c = ''deleted_at'' \<and> \<not> unscoped \<and> \<not> has_key d ''deleted_at'' then Some VNone
      else map_of d c)"
proof (cases "\<not> unscoped \<and> \<not> has_key d ''deleted_at''")
  case True
  then have r: "reformatter BusinessBaseDao d unscoped = d @ [(''deleted_at'', VNone)]"
    using reformatter_distinct[OF assms, of BusinessBaseDao unscoped] by (simp add: injected_def)
  show ?thesis
  proof (cases "c = ''deleted_at''")
    case c: True
    have n: "map_of d ''deleted_at'' = None"
      using True by (simp add: has_key_def dict_keys_def map_of_eq_None_iff)
    from True c n show ?thesis unfolding r by (simp add: map_add_def)
  next
    case False
    then show ?thesis unfolding r by (simp add: map_add_def split: option.splits)
  qed
next
  case False
  then have r: "reformatter BusinessBaseDao d unscoped = d"
    using reformatter_distinct[OF assms, of BusinessBaseDao unscoped] by (simp add: injected_def)
  from False show ?thesis unfolding r by auto
qed

lemma set_values_reformatted:
  assumes "distinct (dict_keys d)"
  shows "set_values (reformatter BusinessBaseDao d unscoped) r c =
     (if c = ''deleted_at'' \<and> \<not> unscoped \<and> \<not> has_key d ''deleted_at'' then VNone
      else (case map_of d c of None \<Rightarrow> r c | Some v \<Rightarrow> v))"
  by (simp add: set_values_lookup[OF distinct_reformatted[OF assms]] map_of_reformatted[OF assms])

lemma unknown_column_None:
  "set (map fst vals) \<subseteq> set (columns tbl) \<Longrightarrow> unknown_column tbl vals = None"
  by (auto simp: unknown_column_def dict_keys_def find_None_iff)

lemma stamped:
  assumes "distinct (dict_keys d)"
  shows "distinct (dict_keys (dict_set k2 v2 (dict_set k1 v1 d)))"
    and "set (map fst (dict_set k2 v2 (dict_set k1 v1 d))) = insert k2 (insert k1 (set (map fst d)))"
    and "map_of (dict_set k2 v2 (dict_set k1 v1 d)) = (map_of d)(k1 \<mapsto> v1, k2 \<mapsto> v2)"
proof -
  from assms show "distinct (dict_keys (dict_set k2 v2 (dict_set k1 v1 d)))"
    unfolding dict_keys_def by (intro distinct_dict_set)
  show "set (map fst (dict_set k2 v2 (dict_set k1 v1 d))) = insert k2 (insert k1 (set (map fst d)))"
    by (simp only: keys_dict_set)
  show "map_of (dict_set k2 v2 (dict_set k1 v1 d)) = (map_of d)(k1 \<mapsto> v1, k2 \<mapsto> v2)"
    by (simp only: map_of_dict_set)
qed

lemma in_keys: "(k, v) \<in> set d \<Longrightarrow> k \<in> set (map fst d)"
  by (induction d) auto

lemma stamped_lookup:
  assumes d: "distinct (dict_keys data)" and k12: "k1 \<noteq> k2"
  shows "set_values (reformatter BusinessBaseDao (dict_set k2 v2 (dict_set k1 v1 data)) unscoped) r k1 = v1"
    and "set_values (reformatter BusinessBaseDao (dict_set k2 v2 (dict_set k1 v1 data)) unscoped) r k2 = v2"
    and "(k, v) \<in> set data \<Longrightarrow> k \<noteq> k1 \<Longrightarrow> k \<noteq> k2 \<Longrightarrow>
         set_values (reformatter BusinessBaseDao (dict_set k2 v2 (dict_set k1 v1 data)) unscoped) r k = v"
    and "c \<notin> set (map fst data) \<Longrightarrow> c \<noteq> k1 \<Longrightarrow> c \<noteq> k2 \<Longrightarrow>
         set_values (reformatter BusinessBaseDao (dict_set k2 v2 (dict_set k1 v1 data)) unscoped) r c
           = (if c = ''deleted_at'' \<and> \<not> unscoped then VNone else r c)"
proof -
  let ?d2 = "dict_set k2 v2 (dict_set k1 v1 data)"
  note st = stamped[OF d, of k2 v2 k1 v1]
  note sv = set_values_reformatted[OF st(1), of unscoped r]
  have hk: "has_key ?d2 x" if "x \<in> set (map fst data) \<or> x = k1 \<or> x = k2" for x
    unfolding has_key_def dict_keys_def st(2) using that by blast
  have m1: "map_of ?d2 k1 = Some v1" unfolding st(3) using k12 by simp
  have m2: "map_of ?d2 k2 = Some v2" unfolding st(3) by simp
  show "set_values (reformatter BusinessBaseDao ?d2 unscoped) r k1 = v1"
    unfolding sv using m1 hk[of k1] by auto
  show "set_values (reformatter BusinessBaseDao ?d2 unscoped) r k2 = v2"
    unfolding sv using m2 hk[of k2] by auto
  show "set_values (reformatter BusinessBaseDao ?d2 unscoped) r k = v"
    if kv: "(k, v) \<in> set data" and n1: "k \<noteq> k1" and n2: "k \<noteq> k2"
  proof -
    have "map_of data k = Some v" using kv d by (simp add: dict_keys_def)
    then have m: "map_of ?d2 k = Some v" unfolding st(3) using n1 n2 by simp
    from in_keys[OF kv] have "has_key ?d2 k" by (intro hk) simp
    with m show ?thesis unfolding sv by auto
  qed
  show "set_values (reformatter BusinessBaseDao ?d2 unscoped) r c
           = (if c = ''deleted_at'' \<and> \<not> unscoped then VNone else r c)"
    if nk: "c \<notin> set (map fst data)" and n1: "c \<noteq> k1" and n2: "c \<noteq> k2"
  proof -
    have "map_of data c = None" using nk by (simp add: map_of_eq_None_iff)
    then have m: "map_of ?d2 c = None" unfolding st(3) using n1 n2 by simp
    have "\<not> has_key ?d2 c"
      unfolding has_key_def dict_keys_def st(2) using nk n1 n2 by simp
    with m show ?thesis unfolding sv by auto
  qed
qed

lemma stamped_keys:
  assumes d: "distinct (dict_keys data)"
    and sub: "set (dict_keys data) \<subseteq> set (columns tbl)"
    and c: "k1 \<in> set (columns tbl)" "k2 \<in> set (columns tbl)" "''deleted_at'' \<in> set (columns tbl)"
  shows "unknown_column tbl
           (reformatter BusinessBaseDao (dict_set k2 v2 (dict_set k1 v1 data)) unscoped) = None"
proof -
  note st = stamped[OF d, of k2 v2 k1 v1]
  have "set (map fst (reformatter BusinessBaseDao (dict_set k2 v2 (dict_set k1 v1 data)) unscoped))
      \<subseteq> insert ''deleted_at'' (insert k2 (insert k1 (set (map fst data))))"
    using keys_reformatted[OF st(1), of BusinessBaseDao unscoped] unfolding st(2) .
  also have "\<dots> \<subseteq> set (columns tbl)" using sub c unfolding dict_keys_def by blast
  finally show ?thesis by (rule unknown_column_None)
qed

lemma audit_names_differ:
  "''created_at'' \<noteq> ''created_by''" "''updated_at'' \<noteq> ''updated_by''"
  by simp_all

lemma business_insert_row:
  assumes d: "distinct (dict_keys data)"
    and sub: "set (dict_keys data) \<subseteq> set (columns tbl)"
    and c: "''created_at'' \<in> set (columns tbl)" "''created_by'' \<in> set (columns tbl)" "''deleted_at'' \<in> set (columns tbl)"
  shows "\<exists>row. business_insert eng tbl dflt data modify_by unscoped now db = Inr (db @ [row])
          \<and> row ''created_at'' = VDatetime now \<and> row ''created_at'' \<noteq> VNone
          \<and> row ''created_by'' = VStr modify_by
          \<and> (\<forall>(k, v) \<in> set data. k \<noteq> ''created_at'' \<and> k \<noteq> ''created_by'' \<longrightarrow> row k = v)"
proof -
  let ?vals = "reformatter BusinessBaseDao
      (dict_set ''created_by'' (VStr modify_by) (dict_set ''created_at'' (VDatetime now) data)) unscoped"
  let ?row = "set_values ?vals dflt"
  note sl = stamped_lookup[OF d audit_names_differ(1), where ?v1.0 = "VDatetime now"
      and ?v2.0 = "VStr modify_by" and unscoped = unscoped and r = dflt]
  have uc: "unknown_column tbl ?vals = None"
    by (rule stamped_keys[OF d sub c])
  have ins: "business_insert eng tbl dflt data modify_by unscoped now db = Inr (db @ [?row])"
    unfolding business_insert_def business_insert_stmt_def insert_stmt_def Let_def
    by (simp only: execute.simps uc option.case)
  show ?thesis
  proof (intro exI[of _ ?row] conjI)
    show "business_insert eng tbl dflt data modify_by unscoped now db = Inr (db @ [?row])"
      by (rule ins)
    show "?row ''created_at'' = VDatetime now" by (rule sl(1))
    show "?row ''created_at'' \<noteq> VNone" unfolding sl(1) by simp
    show "?row ''created_by'' = VStr modify_by" by (rule sl(2))
    show "\<forall>(k, v) \<in> set data. k \<noteq> ''created_at'' \<and> k \<noteq> ''created_by'' \<longrightarrow> ?row k = v"
      using sl(3) by fast
  qed
qed

section \<open>Audit stamps: the rows after an update\<close>

lemma business_update_rows:
  assumes d: "distinct (dict_keys data)" and dw: "distinct (dict_keys where_dict)"
    and sub: "set (dict_keys data) \<subseteq> set (columns tbl)"
    and c: "''updated_at'' \<in> set (columns tbl)" "''updated_by'' \<in> set (columns tbl)" "has_column tbl ''deleted_at''"
    and fr: "unscoped \<or> has_key data ''deleted_at'' \<or> \<not> has_key where_dict ''deleted_at''"
  shows "\<exists>db'. business_update eng tbl dflt where_dict data unscoped modify_by now db = Inr db'
      \<and> length db' = length db
      \<and> (\<forall>i < length db.
            if matches eng (where_dict_preds tbl (reformatter BusinessBaseDao where_dict unscoped)) (db ! i)
            then (db' ! i) ''updated_at'' = VDatetime now
               \<and> (db' ! i) ''updated_by'' = VStr modify_by
               \<and> (\<forall>(k, v) \<in> set data. k \<noteq> ''updated_at'' \<and> k \<noteq> ''updated_by'' \<longrightarrow> (db' ! i) k = v)
               \<and> (\<forall>col. col \<notin> set (dict_keys data) \<and> col \<noteq> ''updated_at'' \<and> col \<noteq> ''updated_by''
                      \<longrightarrow> (db' ! i) col = (db ! i) col)
            else db' ! i = db ! i)"
proof -
  let ?vals = "reformatter BusinessBaseDao
      (dict_set ''updated_by'' (VStr modify_by) (dict_set ''updated_at'' (VDatetime now) data)) unscoped"
  let ?W = "where_dict_preds tbl (reformatter BusinessBaseDao where_dict unscoped)"
  let ?f = "\<lambda>r. if matches eng ?W r then set_values ?vals r else r"
  note sl = stamped_lookup[OF d audit_names_differ(2), where ?v1.0 = "VDatetime now"
      and ?v2.0 = "VStr modify_by" and unscoped = unscoped]
  have dc: "''deleted_at'' \<in> set (columns tbl)" using c(3) by (simp add: has_column_def)
  have uc: "unknown_column tbl ?vals = None"
    by (rule stamped_keys[OF d sub c(1,2) dc])
  have upd: "business_update eng tbl dflt where_dict data unscoped modify_by now db = Inr (map ?f db)"
    unfolding business_update_def business_update_stmt_def update_stmt_def Let_def
    by (simp only: execute.simps uc option.case)
  have frame: "set_values ?vals r col = r col"
    if mt: "matches eng ?W r" and nk: "col \<notin> set (dict_keys data)"
      and n1: "col \<noteq> ''updated_at''" and n2: "col \<noteq> ''updated_by''" for r col
  proof -
    from nk have nk': "col \<notin> set (map fst data)" by (simp add: dict_keys_def)
    note e = sl(4)[OF nk' n1 n2, of r]
    show ?thesis
    proof (cases "col = ''deleted_at'' \<and> \<not> unscoped")
      case False
      with e show ?thesis by auto
    next
      case True
      with nk have "\<not> has_key data ''deleted_at''" by (simp add: has_key_def)
      with fr True have nw: "\<not> has_key where_dict ''deleted_at''" by simp
      have "reformatter BusinessBaseDao where_dict unscoped = where_dict @ [(''deleted_at'', VNone)]"
        using reformatter_distinct[OF dw, of BusinessBaseDao unscoped] nw True
        by (simp add: injected_def)
      then have "ColEq ''deleted_at'' VNone \<in> set ?W"
        using getattr_c_column[OF c(3)] by (simp add: where_dict_preds_append)
      with mt have "holds eng r (ColEq ''deleted_at'' VNone)"
        unfolding matches_def list_all_iff by blast
      then have "r ''deleted_at'' = VNone" by simp
      with True e show ?thesis by simp
    qed
  qed
  have row: "if matches eng ?W r
            then ?f r ''updated_at'' = VDatetime now
               \<and> ?f r ''updated_by'' = VStr modify_by
               \<and> (\<forall>(k, v) \<in> set data. k \<noteq> ''updated_at'' \<and> k \<noteq> ''updated_by'' \<longrightarrow> ?f r k = v)
               \<and> (\<forall>col. col \<notin> set (dict_keys data) \<and> col \<noteq> ''updated_at'' \<and> col \<noteq> ''updated_by''
                      \<longrightarrow> ?f r col = r col)
            else ?f r = r" for r
  proof (cases "matches eng ?W r")
    case False
    then show ?thesis by simp
  next
    case True
    have a: "set_values ?vals r ''updated_at'' = VDatetime now" by (rule sl(1))
    have b: "set_values ?vals r ''updated_by'' = VStr modify_by" by (rule sl(2))
    have cc: "\<forall>(k, v) \<in> set data. k \<noteq> ''updated_at'' \<and> k \<noteq> ''updated_by''
        \<longrightarrow> set_values ?vals r k = v"
      using sl(3)[of _ _ r] by fast
    have dd: "\<forall>col. col \<notin> set (dict_keys data) \<and> col \<noteq> ''updated_at'' \<and> col \<noteq> ''updated_by''
        \<longrightarrow> set_values ?vals r col = r col"
      using frame[OF True] by fast
    from True a b cc dd show ?thesis by (simp only: if_True)
  qed
  show ?thesis
  proof (intro exI[of _ "map ?f db"] conjI allI impI)
    show "business_update eng tbl dflt where_dict data unscoped modify_by now db = Inr (map ?f db)"
      by (rule upd)
    show "length (map ?f db) = length db" by simp
    fix i assume "i < length db"
    then have nth: "map ?f db ! i = ?f (db ! i)" by (rule nth_map)
    show "if matches eng ?W (db ! i)
            then (map ?f db ! i) ''updated_at'' = VDatetime now
               \<and> (map ?f db ! i) ''updated_by'' = VStr modify_by
               \<and> (\<forall>(k, v) \<in> set data. k \<noteq> ''updated_at'' \<and> k \<noteq> ''updated_by''
                      \<longrightarrow> (map ?f db ! i) k = v)
               \<and> (\<forall>col. col \<notin> set (dict_keys data) \<and> col \<noteq> ''updated_at'' \<and> col \<noteq> ''updated_by''
                      \<longrightarrow> (map ?f db ! i) col = (db ! i) col)
            else map ?f db ! i = db ! i"
      unfolding nth by (rule row)
  qed
qed

section \<open>Audit stamps of insert and update\<close>

text \<open>
  Claim C8, as the code has it. On a table that has the audit columns, with \<open>deleted_at\<close>
  not hidden by an attribute of the column collection, and every column named in the data,
  business \<open>insert\<close> appends a row whose \<open>created_at\<close> is the current
  time, so not null, whose \<open>created_by\<close> is \<open>modify_by\<close>, and which holds the data. Business
  \<open>update\<close> sets, in the rows that satisfy its where-condition, \<open>updated_at\<close> to the current
  time, \<open>updated_by\<close> to \<open>modify_by\<close> and the columns named in the data; provided the
  where-condition does not name \<open>deleted_at\<close> (or the call is unscoped, or the data names
  \<open>deleted_at\<close>), every other column of those rows, \<open>created_at\<close> among them, keeps its value,
  and the other rows are unchanged.
\<close>

theorem business_audit_stamps:
  "(distinct (dict_keys data) \<and> set (dict_keys data) \<subseteq> set (columns tbl)
      \<and> ''created_at'' \<in> set (columns tbl) \<and> ''created_by'' \<in> set (columns tbl) \<and> ''deleted_at'' \<in> set (columns tbl)
    \<longrightarrow> (\<exists>row. business_insert eng tbl dflt data modify_by unscoped now db = Inr (db @ [row])
          \<and> row ''created_at'' = VDatetime now \<and> row ''created_at'' \<noteq> VNone
          \<and> row ''created_by'' = VStr modify_by
          \<and> (\<forall>(k, v) \<in> set data. k \<noteq> ''created_at'' \<and> k \<noteq> ''created_by'' \<longrightarrow> row k = v)))
   \<and> (distinct (dict_keys data) \<and> distinct (dict_keys where_dict)
      \<and> set (dict_keys data) \<subseteq> set (columns tbl)
      \<and> ''updated_at'' \<in> set (columns tbl) \<and> ''updated_by'' \<in> set (columns tbl) \<and> has_column tbl ''deleted_at''
      \<and> (unscoped \<or> has_key data ''deleted_at'' \<or> \<not> has_key where_dict ''deleted_at'')
    \<longrightarrow> (\<exists>db'. business_update eng tbl dflt where_dict data unscoped modify_by now db = Inr db'
      \<and> length db' = length db
      \<and> (\<forall>i < length db.
            if matches eng (where_dict_preds tbl (reformatter BusinessBaseDao where_dict unscoped)) (db ! i)
            then (db' ! i) ''updated_at'' = VDatetime now
               \<and> (db' ! i) ''updated_by'' = VStr modify_by
               \<and> (\<forall>(k, v) \<in> set data. k \<noteq> ''updated_at'' \<and> k \<noteq> ''updated_by'' \<longrightarrow> (db' ! i) k = v)
               \<and> (\<forall>col. col \<notin> set (dict_keys data) \<and> col \<noteq> ''updated_at'' \<and> col \<noteq> ''updated_by''
                      \<longrightarrow> (db' ! i) col = (db ! i) col)
            else db' ! i = db ! i)))"
proof (intro conjI impI)
  assume "distinct (dict_keys data) \<and> set (dict_keys data) \<subseteq> set (columns tbl)
      \<and> ''created_at'' \<in> set (columns tbl) \<and> ''created_by'' \<in> set (columns tbl) \<and> ''deleted_at'' \<in> set (columns tbl)"
  then have h: "distinct (dict_keys data)" "set (dict_keys data) \<subseteq> set (columns tbl)"
    "''created_at'' \<in> set (columns tbl)" "''created_by'' \<in> set (columns tbl)" "''deleted_at'' \<in> set (columns tbl)"
    by simp_all
  show "\<exists>row. business_insert eng tbl dflt data modify_by unscoped now db = Inr (db @ [row])
          \<and> row ''created_at'' = VDatetime now \<and> row ''created_at'' \<noteq> VNone
          \<and> row ''created_by'' = VStr modify_by
          \<and> (\<forall>(k, v) \<in> set data. k \<noteq> ''created_at'' \<and> k \<noteq> ''created_by'' \<longrightarrow> row k = v)"
    by (rule business_insert_row[OF h])
next
  assume "distinct (dict_keys data) \<and> distinct (dict_keys where_dict)
      \<and> set (dict_keys data) \<subseteq> set (columns tbl)
      \<and> ''updated_at'' \<in> set (columns tbl) \<and> ''updated_by'' \<in> set (columns tbl) \<and> has_column tbl ''deleted_at''
      \<and> (unscoped \<or> has_key data ''deleted_at'' \<or> \<not> has_key where_dict ''deleted_at'')"
  then have h: "distinct (dict_keys data)" "distinct (dict_keys where_dict)"
    "set (dict_keys data) \<subseteq> set (columns tbl)"
    "''updated_at'' \<in> set (columns tbl)" "''updated_by'' \<in> set (columns tbl)" "has_column tbl ''deleted_at''"
    "unscoped \<or> has_key data ''deleted_at'' \<or> \<not> has_key where_dict ''deleted_at''"
    by simp_all
  show "\<exists>db'. business_update eng tbl dflt where_dict data unscoped modify_by now db = Inr db'
      \<and> length db' = length db
      \<and> (\<forall>i < length db.
            if matches eng (where_dict_preds tbl (reformatter BusinessBaseDao where_dict unscoped)) (db ! i)
            then (db' ! i) ''updated_at'' = VDatetime now
               \<and> (db' ! i) ''updated_by'' = VStr modify_by
               \<and> (\<forall>(k, v) \<in> set data. k \<noteq> ''updated_at'' \<and> k \<noteq> ''updated_by'' \<longrightarrow> (db' ! i) k = v)
               \<and> (\<forall>col. col \<notin> set (dict_keys data) \<and> col \<noteq> ''updated_at'' \<and> col \<noteq> ''updated_by''
                      \<longrightarrow> (db' ! i) col = (db ! i) col)
            else db' ! i = db ! i)"
    by (rule business_update_rows[OF h])
qed

text \<open>
  Inserting \<open>{name: 'a'}\<close> as alice, and updating \<open>{name: 'b'}\<close> where \<open>{id: 1}\<close> as bob on the row
  that alice created.
\<close>

theorem business_audit_stamps_witness:
  "(\<exists>row. business_insert plain_engine
        (sa_table [''id'', ''name'', ''created_at'', ''created_by'', ''updated_at'', ''updated_by'', ''deleted_at''])
        null_row [(''name'', VStr ''a'')] ''alice'' False ''2024-01-01T00:00:00'' [] = Inr ([] @ [row])
      \<and> row ''created_at'' = VDatetime ''2024-01-01T00:00:00''
      \<and> row ''created_by'' = VStr ''alice'')
   \<and> (\<exists>db'. business_update plain_engine
        (sa_table [''id'', ''name'', ''created_at'', ''created_by'', ''updated_at'', ''updated_by'', ''deleted_at''])
        null_row [(''id'', VInt 1)] [(''name'', VStr ''b'')] False ''bob'' ''2024-02-02T00:00:00''
        [row_of [(''id'', VInt 1), (''name'', VStr ''a''),
                 (''created_at'', VDatetime ''2024-01-01T00:00:00''), (''created_by'', VStr ''alice'')]]
        = Inr db'
      \<and> (db' ! 0) ''updated_at'' = VDatetime ''2024-02-02T00:00:00''
      \<and> (db' ! 0) ''updated_by'' = VStr ''bob''
      \<and> (db' ! 0) ''created_at'' = VDatetime ''2024-01-01T00:00:00'')"
proof -
  let ?t = "sa_table [''id'', ''name'', ''created_at'', ''created_by'', ''updated_at'', ''updated_by'', ''deleted_at'']"
  let ?r = "row_of [(''id'', VInt 1), (''name'', VStr ''a''),
                 (''created_at'', VDatetime ''2024-01-01T00:00:00''), (''created_by'', VStr ''alice'')]"
  have h1: "distinct (dict_keys [(''name'', VStr ''a'')]) \<and> set (dict_keys [(''name'', VStr ''a'')]) \<subseteq> set (columns ?t)
      \<and> ''created_at'' \<in> set (columns ?t) \<and> ''created_by'' \<in> set (columns ?t) \<and> ''deleted_at'' \<in> set (columns ?t)"
    by code_simp
  have h2: "distinct (dict_keys [(''name'', VStr ''b'')]) \<and> distinct (dict_keys [(''id'', VInt 1)])
      \<and> set (dict_keys [(''name'', VStr ''b'')]) \<subseteq> set (columns ?t)
      \<and> ''updated_at'' \<in> set (columns ?t) \<and> ''updated_by'' \<in> set (columns ?t) \<and> has_column ?t ''deleted_at''
      \<and> (False \<or> has_key [(''name'', VStr ''b'')] ''deleted_at'' \<or> \<not> has_key [(''id'', VInt 1)] ''deleted_at'')"
    by code_simp
  have m: "matches plain_engine (where_dict_preds ?t (reformatter BusinessBaseDao [(''id'', VInt 1)] False)) ?r"
    by code_simp
  have nk: "''created_at'' \<notin> set (dict_keys [(''name'', VStr ''b'')]) \<and> ''created_at'' \<noteq> ''updated_at''
      \<and> ''created_at'' \<noteq> ''updated_by''"
    by code_simp
  have old: "?r ''created_at'' = VDatetime ''2024-01-01T00:00:00''"
    by code_simp
  from business_audit_stamps[of "[(''name'', VStr ''a'')]" ?t plain_engine null_row "''alice''" False
      "''2024-01-01T00:00:00''" "[]", THEN conjunct1, THEN mp, OF h1]
  have a: "\<exists>row. business_insert plain_engine ?t
        null_row [(''name'', VStr ''a'')] ''alice'' False ''2024-01-01T00:00:00'' [] = Inr ([] @ [row])
      \<and> row ''created_at'' = VDatetime ''2024-01-01T00:00:00''
      \<and> row ''created_by'' = VStr ''alice''"
    by (elim exE conjE, intro exI conjI)
  from business_audit_stamps[of "[(''name'', VStr ''b'')]" ?t plain_engine null_row "''bob''" False
      "''2024-02-02T00:00:00''" "[?r]" "[(''id'', VInt 1)]", THEN conjunct2, THEN mp, OF h2]
  obtain db' where u: "business_update plain_engine ?t null_row [(''id'', VInt 1)]
        [(''name'', VStr ''b'')] False ''bob'' ''2024-02-02T00:00:00'' [?r] = Inr db'"
    and row: "\<forall>i < length [?r].
            if matches plain_engine (where_dict_preds ?t (reformatter BusinessBaseDao [(''id'', VInt 1)] False)) ([?r] ! i)
            then (db' ! i) ''updated_at'' = VDatetime ''2024-02-02T00:00:00''
               \<and> (db' ! i) ''updated_by'' = VStr ''bob''
               \<and> (\<forall>(k, v) \<in> set [(''name'', VStr ''b'')]. k \<noteq> ''updated_at'' \<and> k \<noteq> ''updated_by'' \<longrightarrow> (db' ! i) k = v)
               \<and> (\<forall>col. col \<notin> set (dict_keys [(''name'', VStr ''b'')]) \<and> col \<noteq> ''updated_at'' \<and> col \<noteq> ''updated_by''
                      \<longrightarrow> (db' ! i) col = ([?r] ! i) col)
            else db' ! i = [?r] ! i"
    by (elim exE conjE)
  have z: "0 < length [?r]" "[?r] ! 0 = ?r" by simp_all
  note row0 = row[rule_format, OF z(1), unfolded z(2)]
  note al = row0[unfolded if_P[OF m]]
  note s = al[THEN conjunct1] al[THEN conjunct2, THEN conjunct1]
    al[THEN conjunct2, THEN conjunct2, THEN conjunct2]
  from s(3)[rule_format, OF nk] old
  have k: "(db' ! 0) ''created_at'' = VDatetime ''2024-01-01T00:00:00''" by (simp only:)
  from u s(1,2) k
  have b: "\<exists>db'. business_update plain_engine ?t
        null_row [(''id'', VInt 1)] [(''name'', VStr ''b'')] False ''bob'' ''2024-02-02T00:00:00'' [?r]
        = Inr db'
      \<and> (db' ! 0) ''updated_at'' = VDatetime ''2024-02-02T00:00:00''
      \<and> (db' ! 0) ''updated_by'' = VStr ''bob''
      \<and> (db' ! 0) ''created_at'' = VDatetime ''2024-01-01T00:00:00''"
    by (intro exI[of _ db'] conjI)
  from a b show ?thesis by (rule conjI)
qed

text \<open>
  Claim C8 as stated fails: an update of \<open>{name: 'b'}\<close> where \<open>{deleted_at: t}\<close> does not name
  \<open>deleted_at\<close> in its data and yet sets it from \<open>t\<close> to NULL.
\<close>

theorem business_update_resets_deleted_at_counterexample:
  "\<not> has_key [(''name'', VStr ''b'')] ''deleted_at''
   \<and> row_of [(''id'', VInt 1), (''deleted_at'', VDatetime ''2024-01-01T00:00:00'')] ''deleted_at''
       = VDatetime ''2024-01-01T00:00:00''
   \<and> \<not> isl (business_update plain_engine
        (sa_table [''id'', ''name'', ''created_at'', ''created_by'', ''updated_at'', ''updated_by'', ''deleted_at''])
        null_row [(''deleted_at'', VDatetime ''2024-01-01T00:00:00'')] [(''name'', VStr ''b'')] False
        ''bob'' ''2024-02-02T00:00:00''
        [row_of [(''id'', VInt 1), (''deleted_at'', VDatetime ''2024-01-01T00:00:00'')]])
   \<and> hd (projr (business_update plain_engine
        (sa_table [''id'', ''name'', ''created_at'', ''created_by'', ''updated_at'', ''updated_by'', ''deleted_at''])
        null_row [(''deleted_at'', VDatetime ''2024-01-01T00:00:00'')] [(''name'', VStr ''b'')] False
        ''bob'' ''2024-02-02T00:00:00''
        [row_of [(''id'', VInt 1), (''deleted_at'', VDatetime ''2024-01-01T00:00:00'')]])) ''deleted_at''
       = VNone"
  by code_simp

end
